theory Spec2Isabelle
  imports Main
begin

chapter \<open>The task-tracking and asset-materialization engine of server.js\<close>

text \<open>
  The development models the part of \<^verbatim>\<open>server.js\<close> that polls the upstream API for a
  task, normalizes its answers, downloads the assets of a finished task and serves
  them: \<^verbatim>\<open>getStatusFromKieResp\<close>, \<^verbatim>\<open>extractSunoData\<close>, \<^verbatim>\<open>downloadFileToPath\<close>,
  \<^verbatim>\<open>downloadAssetsForTask\<close>, \<^verbatim>\<open>startServerSidePoll\<close> with its timer callback, the
  cached branch of \<^verbatim>\<open>GET /api/task/:taskId\<close> and \<^verbatim>\<open>GET /download\<close>. The proxy routes
  and the stand-alone script \<^verbatim>\<open>download_tracks.js\<close> are not part of it.

  The process is single-threaded, and its asynchronous functions are cut at their
  \<^verbatim>\<open>await\<close>s: what runs between two of them is one function of the model, and the
  events of the outside world (a timer fires, a request is answered or fails, the
  downloads of a task settle) may come in any order the state allows. The
  materializer, which awaits one download after the other, is taken as a single step:
  it returns a list, throws, or never settles.
  What the model assumes about the environment is said where it is introduced: payloads
  are JSON values with integer numbers, strings are sequences of 8-bit characters,
  a file can always be opened and written, making a directory may fail, and the
  \<^verbatim>\<open>path\<close> and \<^verbatim>\<open>URL\<close> functions and the string form of a number are parameters.
\<close>

section \<open>JavaScript values\<close>

text \<open>
  The upstream payload is whatever \<^verbatim>\<open>axios\<close> hands back as \<^verbatim>\<open>r.data\<close>: a parsed JSON
  document or a plain string. \<open>JUndefined\<close> is the result of reading a property that is
  not there. Numbers are the integer-valued ones; an object is the list of its own
  properties, read by key (first match).
\<close>

datatype jsval =
    JUndefined
  | JNull
  | JBool bool
  | JNum int
  | JStr string
  | JArr "jsval list"
  | JObj "(string \<times> jsval) list"

text \<open>
  What the program can catch: a TypeError (a property read on null or undefined, an
  invalid URL, a value that has no string form), a rejected request (network failure or
  a status outside 2xx) and a file-system call that fails.
\<close>

datatype js_error = TypeError | RequestFailed | FsError

text \<open>
  How the call of an asynchronous function ends: it returns a value, it throws, or its
  promise is never settled and whoever awaits it waits for ever.
\<close>

datatype 'a outcome = Returns 'a | Throws js_error | NeverSettles

text \<open>Truthiness, as \<^verbatim>\<open>||\<close>, \<^verbatim>\<open>&&\<close>, \<^verbatim>\<open>!\<close> and \<^verbatim>\<open>if\<close> read it.\<close>

fun truthy :: "jsval \<Rightarrow> bool" where
  "truthy JUndefined = False"
| "truthy JNull = False"
| "truthy (JBool b) = b"
| "truthy (JNum n) = (n \<noteq> 0)"
| "truthy (JStr s) = (s \<noteq> [])"
| "truthy (JArr xs) = True"
| "truthy (JObj kvs) = True"

fun nullish :: "jsval \<Rightarrow> bool" where
  "nullish JUndefined = True"
| "nullish JNull = True"
| "nullish v = False"

text \<open>
  \<open>field v k\<close> is \<^verbatim>\<open>v.k\<close> on a value that is neither null nor undefined, for the
  property names this program reads (none of them is defined on a prototype, so a
  string, a number, a boolean or an array has none of them).
\<close>

fun field :: "jsval \<Rightarrow> string \<Rightarrow> jsval" where
  "field (JObj kvs) k = (case map_of kvs k of None \<Rightarrow> JUndefined | Some v \<Rightarrow> v)"
| "field v k = JUndefined"

text \<open>\<^verbatim>\<open>v.k\<close>: a TypeError on null and undefined.\<close>

definition get_prop :: "jsval \<Rightarrow> string \<Rightarrow> js_error + jsval" where
  "get_prop v k = (if nullish v then Inl TypeError else Inr (field v k))"

text \<open>\<^verbatim>\<open>v?.k\<close>: undefined on null and undefined.\<close>

definition opt_prop :: "jsval \<Rightarrow> string \<Rightarrow> jsval" where
  "opt_prop v k = (if nullish v then JUndefined else field v k)"

text \<open>\<^verbatim>\<open>a || b\<close> and \<^verbatim>\<open>a && b\<close> on operands that are already values.\<close>

definition js_or :: "jsval \<Rightarrow> jsval \<Rightarrow> jsval" where
  "js_or a b = (if truthy a then a else b)"

definition js_and :: "jsval \<Rightarrow> jsval \<Rightarrow> jsval" where
  "js_and a b = (if truthy a then b else a)"

fun is_array :: "jsval \<Rightarrow> bool" where
  "is_array (JArr xs) = True"
| "is_array v = False"

text \<open>
  \<^verbatim>\<open>String.prototype.toUpperCase\<close> on the ASCII letters (codes 97 to 122 lose the
  bit of weight 32); every other character is kept as it is.
\<close>

definition upper_char :: "char \<Rightarrow> char" where
  "upper_char c =
     (if 97 \<le> (of_char c :: nat) \<and> (of_char c :: nat) \<le> 122
      then (case c of Char b0 b1 b2 b3 b4 b5 b6 b7 \<Rightarrow> Char b0 b1 b2 b3 b4 False b6 b7)
      else c)"

definition toUpperCase :: "string \<Rightarrow> string" where
  "toUpperCase s = map upper_char s"

section \<open>Response normalizer (server.js, lines 55-79)\<close>

text \<open>
  Line 60: \<^verbatim>\<open>(typeof status === 'string') ? status.toUpperCase() : null\<close>.
\<close>

fun upper_if_string :: "jsval \<Rightarrow> jsval" where
  "upper_if_string (JStr s) = JStr (toUpperCase s)"
| "upper_if_string v = JNull"

text \<open>
  Lines 58-59, the \<^verbatim>\<open>||\<close> chain that picks the status. Its third operand,
  \<^verbatim>\<open>(kieResp?.data && kieResp.data.status)\<close>, reads \<^verbatim>\<open>kieResp.data.status\<close> without
  optional chaining, so it is the one place that can raise; it is evaluated only when
  the first two operands are falsy.
\<close>

definition status_chain :: "jsval \<Rightarrow> js_error + jsval" where
  "status_chain kieResp =
     (let data = js_or (opt_prop kieResp ''data'') kieResp;
          c1 = opt_prop data ''status'';
          c2 = opt_prop (opt_prop data ''response'') ''status''
      in if truthy c1 then Inr c1
         else if truthy c2 then Inr c2
         else if truthy (opt_prop kieResp ''data'')
           then (case get_prop kieResp ''data'' of
                   Inl e \<Rightarrow> Inl e
                 | Inr d \<Rightarrow> get_prop d ''status'')
           else Inr (opt_prop kieResp ''data''))"

text \<open>The body of the \<^verbatim>\<open>try\<close> block of \<^verbatim>\<open>getStatusFromKieResp\<close>.\<close>

definition getStatus_try :: "jsval \<Rightarrow> js_error + jsval" where
  "getStatus_try kieResp =
     (case status_chain kieResp of
        Inl e \<Rightarrow> Inl e
      | Inr status \<Rightarrow> Inr (upper_if_string status))"

text \<open>\<^verbatim>\<open>getStatusFromKieResp\<close>: the \<^verbatim>\<open>catch\<close> turns an exception into null.\<close>

definition getStatusFromKieResp :: "jsval \<Rightarrow> jsval" where
  "getStatusFromKieResp kieResp =
     (case getStatus_try kieResp of Inl e \<Rightarrow> JNull | Inr v \<Rightarrow> v)"

text \<open>
  The status a poll tick records (line 174, and line 329 of the status route):
  \<^verbatim>\<open>getStatusFromKieResp(kieResp) || 'UNKNOWN'\<close>.
\<close>

definition observed_status :: "jsval \<Rightarrow> jsval" where
  "observed_status kieResp = js_or (getStatusFromKieResp kieResp) (JStr ''UNKNOWN'')"

text \<open>The body of the \<^verbatim>\<open>try\<close> block of \<^verbatim>\<open>extractSunoData\<close>.\<close>

definition extractSunoData_try :: "jsval \<Rightarrow> js_error + jsval" where
  "extractSunoData_try kieResp =
     (let data = js_or (opt_prop kieResp ''data'') kieResp;
          s = js_or (opt_prop (opt_prop data ''response'') ''sunoData'')
             (js_or (opt_prop data ''sunoData'')
             (js_or (opt_prop data ''response'')
                    (opt_prop (opt_prop (opt_prop data ''data'') ''response'') ''sunoData'')))
      in if is_array s then Inr s
         else
           (let maybe = js_or (opt_prop (opt_prop kieResp ''data'') ''data'')
                              (opt_prop (opt_prop kieResp ''data'') ''response'')
            in if truthy (opt_prop maybe ''sunoData'') then get_prop maybe ''sunoData''
               else Inr (JArr [])))"

definition extractSunoData :: "jsval \<Rightarrow> jsval" where
  "extractSunoData kieResp =
     (case extractSunoData_try kieResp of Inl e \<Rightarrow> JArr [] | Inr v \<Rightarrow> v)"


text \<open>The decimal digits of a natural number, as \<^verbatim>\<open>${i+1}\<close> writes an index of an array.\<close>

fun decimal :: "nat \<Rightarrow> string" where
  "decimal n =
     (if n < 10 then [''0123456789'' ! n]
      else decimal (n div 10) @ [''0123456789'' ! (n mod 10)])"

declare decimal.simps [simp del]

fun join_comma :: "string list \<Rightarrow> string" where
  "join_comma [] = []"
| "join_comma [x] = x"
| "join_comma (x # y # ys) = x @ '','' @ join_comma (y # ys)"

text \<open>The results of a sequence of conversions, up to the first one that throws.\<close>

fun collect :: "(js_error + 'a) list \<Rightarrow> js_error + 'a list" where
  "collect [] = Inr []"
| "collect (Inl e # rs) = Inl e"
| "collect (Inr x # rs) = (case collect rs of Inl e \<Rightarrow> Inl e | Inr xs \<Rightarrow> Inr (x # xs))"

text \<open>
  Conversion to a string, as a template literal, \<^verbatim>\<open>+ ''\<close> and \<^verbatim>\<open>new URL\<close> do it.
  The string form of a number is a parameter, \<open>num\<close> (JavaScript writes decimal
  digits below \<open>10\<^sup>2\<^sup>1\<close> and an exponent from there on). An array joins the string forms
  of its elements, from left to right, with null and undefined giving the empty string.
  An object is converted by the methods it finds under \<^verbatim>\<open>toString\<close> and \<^verbatim>\<open>valueOf\<close>.
  The inherited \<^verbatim>\<open>valueOf\<close> returns the object itself, which is no string form, and
  the inherited \<^verbatim>\<open>toString\<close> returns \<^verbatim>\<open>[object Object]\<close>. An own property of
  a parsed JSON object is never a function and is passed over: so an object with an own
  property \<^verbatim>\<open>toString\<close> has no string form, and the conversion throws a TypeError.
\<close>

fun js_to_string :: "(int \<Rightarrow> string) \<Rightarrow> jsval \<Rightarrow> js_error + string" where
  "js_to_string num JUndefined = Inr ''undefined''"
| "js_to_string num JNull = Inr ''null''"
| "js_to_string num (JBool b) = Inr (if b then ''true'' else ''false'')"
| "js_to_string num (JNum n) = Inr (num n)"
| "js_to_string num (JStr s) = Inr s"
| "js_to_string num (JArr xs) =
     (case collect (map (\<lambda>v. if nullish v then Inr [] else js_to_string num v) xs) of
        Inl e \<Rightarrow> Inl e
      | Inr ss \<Rightarrow> Inr (join_comma ss))"
| "js_to_string num (JObj kvs) =
     (if map_of kvs ''toString'' = None then Inr ''[object Object]'' else Inl TypeError)"

section \<open>The host: file system, network, path and URL library\<close>

text \<open>
  The functions of Node's \<^verbatim>\<open>path\<close> module and the \<^verbatim>\<open>URL\<close> constructor are parameters
  of the model, together with the configured download root:
  \<open>url_pathname u\<close> is \<^verbatim>\<open>new URL(u).pathname\<close>, \<open>None\<close> when the constructor throws;
  \<open>number_to_string n\<close> is \<^verbatim>\<open>String(n)\<close>; and \<open>mkdir_fails p\<close> says that
  \<^verbatim>\<open>fs.mkdirSync(p, { recursive: true })\<close> throws (a name longer than the file system
  allows, a missing permission).
\<close>

record platform =
  url_pathname :: "string \<Rightarrow> string option"
  path_extname :: "string \<Rightarrow> string"
  path_basename :: "string \<Rightarrow> string"
  path_join :: "string \<Rightarrow> string \<Rightarrow> string"
  DOWNLOAD_DIR :: string
  number_to_string :: "int \<Rightarrow> string"
  mkdir_fails :: "string \<Rightarrow> bool"

text \<open>
  A remote server answers a GET with headers (perhaps a content type) and a body that
  is streamed: \<open>body_size\<close> bytes arrive, and then the stream ends (\<open>body_ends\<close>) or
  fails, as when the connection is lost. \<open>None\<close> is a request that \<^verbatim>\<open>axios\<close> rejects:
  no answer, or a status outside 2xx.
\<close>

record http_response =
  content_type :: "string option"
  body_size :: nat
  body_ends :: bool

type_synonym network = "jsval \<Rightarrow> http_response option"

text \<open>
  The disk: regular files with their sizes and the directories, and the trace of the
  asset requests sent so far (line 87). A destination file can be opened and written,
  and a destination path is never a directory.
\<close>

record host =
  files :: "string \<rightharpoonup> nat"
  dirs :: "string set"
  gets :: "jsval list"

definition existsSync :: "host \<Rightarrow> string \<Rightarrow> bool" where
  "existsSync h p = (files h p \<noteq> None \<or> p \<in> dirs h)"

section \<open>Asset materializer (server.js, lines 82-153)\<close>

text \<open>
  \<^verbatim>\<open>downloadFileToPath\<close>: a file that is there and not empty is returned as it is.
  Otherwise \<^verbatim>\<open>createWriteStream\<close> creates (or truncates) the file and the request is
  sent. A rejected request is an exception for the caller. Else the body is piped into
  the file (line 89). When the stream ends, the pipe ends the writer, the writer closes
  and the function returns (line 92). When the stream fails before its end, the pipe
  leaves the writer open, and the promise of line 88, which listens to the writer
  only, is never settled: the call does not return, with the bytes that have arrived
  in the file.
\<close>

definition downloadFileToPath ::
  "network \<Rightarrow> jsval \<Rightarrow> string \<Rightarrow> host \<Rightarrow> string outcome \<times> host" where
  "downloadFileToPath net fileUrl outPath h =
     (if (case files h outPath of None \<Rightarrow> False | Some n \<Rightarrow> 0 < n) then (Returns outPath, h)
      else
        (let h1 = h\<lparr>files := (files h)(outPath \<mapsto> 0), gets := gets h @ [fileUrl]\<rparr>
         in case net fileUrl of
              None \<Rightarrow> (Throws RequestFailed, h1)
            | Some r \<Rightarrow>
                (let h2 = h1\<lparr>files := (files h1)(outPath \<mapsto> body_size r)\<rparr>
                 in if body_ends r then (Returns outPath, h2) else (NeverSettles, h2))))"

datatype asset_kind = Audio | AudioSource | Cover | CoverSource

record saved_file =
  ftype :: asset_kind
  fpath :: string
  fname :: string

text \<open>
  The state of the materializer while it runs: how far it has come (the list \<open>saved\<close>
  when it is still running, else the exception that has left it or the download it
  waits for without end) and the disk. A statement is reached only in a running state.
\<close>

type_synonym progress = "saved_file list outcome \<times> host"

text \<open>
  \<^verbatim>\<open>new URL(url).pathname\<close>: the argument is converted to a string and parsed, and
  either step can throw.
\<close>

definition url_path :: "platform \<Rightarrow> jsval \<Rightarrow> js_error + string" where
  "url_path P url =
     (case js_to_string (number_to_string P) url of
        Inl e \<Rightarrow> Inl e
      | Inr u \<Rightarrow> (case url_pathname P u of None \<Rightarrow> Inl TypeError | Some pn \<Rightarrow> Inr pn))"

text \<open>
  One of the four \<^verbatim>\<open>try\<close> blocks of the loop body (lines 114-120, 124-130, 134-140,
  142-148); they differ in the file name's suffix, the default extension and the kind
  recorded. An exception (an invalid URL, a rejected request) leaves \<open>saved\<close> as it is,
  and the loop goes on. A download that never settles keeps the loop at line 117.
\<close>

definition save_asset ::
  "platform \<Rightarrow> network \<Rightarrow> string \<Rightarrow> string \<Rightarrow> string \<Rightarrow> string \<Rightarrow> asset_kind \<Rightarrow> jsval
     \<Rightarrow> progress \<Rightarrow> progress" where
  "save_asset P net taskDir pre sfx dflt kind url sh =
     (case sh of
        (Returns saved, h) \<Rightarrow>
          (case url_path P url of
             Inl e \<Rightarrow> (Returns saved, h)
           | Inr pn \<Rightarrow>
               (let ext = (if path_extname P pn = [] then dflt else path_extname P pn);
                    name = pre @ sfx @ ext;
                    out = path_join P taskDir name
                in case downloadFileToPath net url out h of
                     (Returns p, h') \<Rightarrow>
                       (Returns (saved @ [\<lparr>ftype = kind, fpath = out, fname = name\<rparr>]), h')
                   | (Throws e, h') \<Rightarrow> (Returns saved, h')
                   | (NeverSettles, h') \<Rightarrow> (NeverSettles, h')))
      | (Throws e, h) \<Rightarrow> (Throws e, h)
      | (NeverSettles, h) \<Rightarrow> (NeverSettles, h))"

text \<open>
  Line 110: the title, or \<^verbatim>\<open>track_\<close> and the ordinal when it is falsy, is converted
  to a string by \<^verbatim>\<open>+ ''\<close>, which throws when the title has no string form; then
  it loses some characters (slash, question mark, percent, star, colon, bar, angle
  brackets, and with codes 0x5C and 0x22 the backslash and the double quote) and what
  exceeds 100 characters.
\<close>

definition sanitize_char :: "char \<Rightarrow> char" where
  "sanitize_char c =
     (if c \<in> set (''/?%*:|<>'' @ [CHR 0x5C, CHR 0x22]) then CHR ''-'' else c)"

definition safeTitle :: "platform \<Rightarrow> jsval \<Rightarrow> nat \<Rightarrow> js_error + string" where
  "safeTitle P it i =
     (case js_to_string (number_to_string P)
             (js_or (field it ''title'') (JStr (''track_'' @ decimal (i + 1)))) of
        Inl e \<Rightarrow> Inl e
      | Inr t \<Rightarrow> Inr (take 100 (map sanitize_char t)))"

text \<open>
  The loop body for the element at index \<open>i\<close> (lines 104-149). Line 110 stands
  outside the four \<^verbatim>\<open>try\<close> blocks: when it throws, the exception leaves the loop and
  the materializer.
\<close>

definition save_track ::
  "platform \<Rightarrow> network \<Rightarrow> string \<Rightarrow> nat \<Rightarrow> jsval \<Rightarrow> progress \<Rightarrow> progress" where
  "save_track P net taskDir i elem sh =
     (case sh of
        (Returns saved, h) \<Rightarrow>
          (let it = js_or elem (JObj []);
               audioUrl = js_or (field it ''audioUrl'') (js_or (field it ''audio_url'')
                         (js_or (field it ''streamAudioUrl'') (field it ''stream_audio_url'')));
               sourceAudioUrl = js_or (field it ''sourceAudioUrl'') (field it ''source_audio_url'');
               imageUrl = js_or (field it ''imageUrl'') (field it ''image_url'');
               sourceImageUrl = js_or (field it ''sourceImageUrl'') (field it ''source_image_url'')
           in case safeTitle P it i of
                Inl e \<Rightarrow> (Throws e, h)
              | Inr title \<Rightarrow>
                  (let pre = decimal (i + 1) @ ''_'' @ title;
                       sh1 = (if truthy audioUrl
                              then save_asset P net taskDir pre [] ''.mp3'' Audio audioUrl sh
                              else sh);
                       sh2 = (if truthy sourceAudioUrl
                              then save_asset P net taskDir pre ''_source'' ''.mp3'' AudioSource
                                     sourceAudioUrl sh1
                              else sh1)
                   in if truthy imageUrl
                      then save_asset P net taskDir pre ''_cover'' ''.png'' Cover imageUrl sh2
                      else if truthy sourceImageUrl
                      then save_asset P net taskDir pre ''_cover_source'' ''.png'' CoverSource
                             sourceImageUrl sh2
                      else sh2))
      | (Throws e, h) \<Rightarrow> (Throws e, h)
      | (NeverSettles, h) \<Rightarrow> (NeverSettles, h))"

text \<open>The \<^verbatim>\<open>for\<close> loop of lines 103-150, from index \<open>i\<close> on.\<close>

fun save_tracks ::
  "platform \<Rightarrow> network \<Rightarrow> string \<Rightarrow> nat \<Rightarrow> jsval list \<Rightarrow> progress \<Rightarrow> progress" where
  "save_tracks P net taskDir i [] sh = sh"
| "save_tracks P net taskDir i (elem # rest) sh =
     save_tracks P net taskDir (Suc i) rest (save_track P net taskDir i elem sh)"

text \<open>
  \<^verbatim>\<open>downloadAssetsForTask\<close>. Lines 99-100 stand outside any \<^verbatim>\<open>try\<close>: when the
  directory of the task cannot be made, the exception of \<^verbatim>\<open>mkdirSync\<close> leaves the
  materializer before any asset is looked at.
\<close>

definition downloadAssetsForTask ::
  "platform \<Rightarrow> network \<Rightarrow> string \<Rightarrow> jsval \<Rightarrow> host \<Rightarrow> progress" where
  "downloadAssetsForTask P net taskId sunoDataArray h =
     (case sunoDataArray of
        JArr (elem # rest) \<Rightarrow>
          (let taskDir = path_join P (DOWNLOAD_DIR P) taskId
           in if existsSync h taskDir
              then save_tracks P net taskDir 0 (elem # rest) (Returns [], h)
              else if mkdir_fails P taskDir then (Throws FsError, h)
              else save_tracks P net taskDir 0 (elem # rest)
                     (Returns [], h\<lparr>dirs := insert taskDir (dirs h)\<rparr>))
      | _ \<Rightarrow> (Returns [], h))"


section \<open>Task registry and poll scheduler (server.js, lines 40-52 and 155-223)\<close>

text \<open>
  A record of \<^verbatim>\<open>taskCache\<close>. The object that line 178 creates when the task has no
  record (\<^verbatim>\<open>taskCache.get(taskId) || {}\<close>) has no \<^verbatim>\<open>downloaded\<close> and no
  \<^verbatim>\<open>localFiles\<close> property: these two fields are optional.
\<close>

record cache_entry =
  lastRaw :: jsval
  status :: jsval
  updatedAt :: nat
  sunoData :: jsval
  downloaded :: "bool option"
  localFiles :: "saved_file list option"

definition empty_object :: cache_entry where
  "empty_object =
     \<lparr>lastRaw = JUndefined, status = JUndefined, updatedAt = 0, sunoData = JUndefined,
      downloaded = None, localFiles = None\<rparr>"

text \<open>The value line 222 stores in \<^verbatim>\<open>activePolls\<close>: the timer and a counter that stays 0.\<close>

record poll_handle =
  handle_timer :: nat
  handle_attempts :: nat

text \<open>
  An interval timer made by line 170, with what its callback closes over: the task
  identifier and the counter \<^verbatim>\<open>attempts\<close>, shared by all the ticks of the timer.
\<close>

record interval =
  callback_task :: string
  attempts :: nat
  cleared :: bool

text \<open>
  One run of the timer's callback. The callback is asynchronous: it is suspended at
  \<^verbatim>\<open>await kieRecordInfo(taskId)\<close> (line 173) and, on a final status, at
  \<^verbatim>\<open>await downloadAssetsForTask(taskId, sunoData)\<close> (line 193), and other callbacks and
  requests run in between. A tick that awaits the materializer holds the way its call
  ends.
\<close>

datatype tick_phase =
    AwaitingRecordInfo
  | AwaitingDownload "saved_file list outcome"
  | Returned

record tick =
  of_timer :: nat
  phase :: tick_phase

text \<open>The lines the poller writes to the console.\<close>

datatype log_line =
    LogStart string
  | LogStatus string jsval nat
  | LogFinal string jsval
  | LogSaved string nat
  | LogDownloadError string
  | LogStopped string jsval nat
  | LogFetchError string

text \<open>
  The state of the process: the two global maps, keyed by task identifiers (strings;
  the empty one is falsy), the timers and the ticks, the disk, the clock that
  \<^verbatim>\<open>Date.now()\<close> reads, and the console. A timer is named by its position in
  \<open>timers\<close>, a tick by its position in \<open>ticks\<close>.
\<close>

record server =
  taskCache :: "string \<rightharpoonup> cache_entry"
  activePolls :: "string \<rightharpoonup> poll_handle"
  timers :: "interval list"
  ticks :: "tick list"
  disk :: host
  clock :: nat
  console :: "log_line list"

definition FINAL_STATUSES :: "jsval set" where
  "FINAL_STATUSES = {JStr ''SUCCESS'', JStr ''FIRST_SUCCESS''}"

definition ERROR_STATUSES :: "jsval set" where
  "ERROR_STATUSES =
     {JStr ''CREATE_TASK_FAILED'', JStr ''GENERATE_AUDIO_FAILED'',
      JStr ''SENSITIVE_WORD_ERROR'', JStr ''CALLBACK_EXCEPTION''}"

definition maxAttempts :: nat where
  "maxAttempts = 120"

text \<open>\<^verbatim>\<open>startServerSidePoll\<close>, lines 156-168 and 222; the callback is below.\<close>

definition startServerSidePoll :: "string \<Rightarrow> server \<Rightarrow> server" where
  "startServerSidePoll taskId w =
     (if taskId = [] then w
      else if activePolls w taskId \<noteq> None then w
      else
        (let w1 = w\<lparr>console := console w @ [LogStart taskId]\<rparr>;
             w2 = (if taskCache w1 taskId = None
                   then w1\<lparr>taskCache := (taskCache w1)(taskId \<mapsto>
                          \<lparr>lastRaw = JNull, status = JNull, updatedAt = clock w1,
                           sunoData = JUndefined, downloaded = Some False,
                           localFiles = Some []\<rparr>)\<rparr>
                   else w1);
             timer = length (timers w2)
         in w2\<lparr>timers := timers w2 @ [\<lparr>callback_task = taskId, attempts = 0, cleared = False\<rparr>],
               activePolls := (activePolls w2)(taskId \<mapsto>
                  \<lparr>handle_timer = timer, handle_attempts = 0\<rparr>)\<rparr>))"

text \<open>\<^verbatim>\<open>clearInterval(timer); activePolls.delete(taskId)\<close>.\<close>

definition stop_poll :: "nat \<Rightarrow> string \<Rightarrow> server \<Rightarrow> server" where
  "stop_poll timer taskId w =
     w\<lparr>timers := (timers w)[timer := (timers w ! timer)\<lparr>cleared := True\<rparr>],
       activePolls := (activePolls w)(taskId := None)\<rparr>"

definition set_phase :: "nat \<Rightarrow> tick_phase \<Rightarrow> server \<Rightarrow> server" where
  "set_phase k ph w = w\<lparr>ticks := (ticks w)[k := (ticks w ! k)\<lparr>phase := ph\<rparr>]\<rparr>"

text \<open>The timer fires: lines 171-173, up to the \<^verbatim>\<open>await\<close>.\<close>

definition tick_begin :: "nat \<Rightarrow> server \<Rightarrow> server" where
  "tick_begin timer w =
     w\<lparr>timers := (timers w)[timer :=
            (timers w ! timer)\<lparr>attempts := Suc (attempts (timers w ! timer))\<rparr>],
       ticks := ticks w @ [\<lparr>of_timer = timer, phase = AwaitingRecordInfo\<rparr>]\<rparr>"

text \<open>
  \<^verbatim>\<open>kieRecordInfo\<close> has answered tick \<open>k\<close> with \<open>kieResp\<close>: lines 174-211. On a final
  status the materializer is called (line 193); it runs here as one step, and the tick
  waits for the way it ends. So the downloads of two materializers that are in flight
  at the same time are not interleaved: the second one finds the files of the first
  complete, where the code could find them empty and request them again.
\<close>

definition tick_fetched :: "platform \<Rightarrow> network \<Rightarrow> nat \<Rightarrow> jsval \<Rightarrow> server \<Rightarrow> server" where
  "tick_fetched P net k kieResp w =
     (let timer = of_timer (ticks w ! k);
          taskId = callback_task (timers w ! timer);
          st = observed_status kieResp;
          arr = extractSunoData kieResp;
          current = (case taskCache w taskId of None \<Rightarrow> empty_object | Some e \<Rightarrow> e);
          w1 = w\<lparr>taskCache := (taskCache w)(taskId \<mapsto>
                     current\<lparr>lastRaw := kieResp, status := st, updatedAt := clock w,
                             sunoData := arr\<rparr>),
                 console := console w @ [LogStatus taskId st (attempts (timers w ! timer))]\<rparr>
      in if st \<in> FINAL_STATUSES then
           (let w2 = stop_poll timer taskId w1;
                w3 = w2\<lparr>console := console w2 @ [LogFinal taskId st]\<rparr>;
                (result, h) = downloadAssetsForTask P net taskId arr (disk w3)
            in set_phase k (AwaitingDownload result) (w3\<lparr>disk := h\<rparr>))
         else if st \<in> ERROR_STATUSES \<or> maxAttempts \<le> attempts (timers w1 ! timer) then
           (let w2 = stop_poll timer taskId w1
            in set_phase k Returned
                 (w2\<lparr>console := console w2 @
                    [LogStopped taskId st (attempts (timers w1 ! timer))]\<rparr>))
         else set_phase k Returned w1)"

text \<open>The materializer has returned \<open>saved\<close> to tick \<open>k\<close>: lines 194-199 and 203.\<close>

definition tick_saved :: "nat \<Rightarrow> saved_file list \<Rightarrow> server \<Rightarrow> server" where
  "tick_saved k saved w =
     (let timer = of_timer (ticks w ! k);
          taskId = callback_task (timers w ! timer);
          entry = (case taskCache w taskId of None \<Rightarrow> empty_object | Some e \<Rightarrow> e)
      in set_phase k Returned
           (w\<lparr>taskCache := (taskCache w)(taskId \<mapsto>
                  entry\<lparr>downloaded := Some True, localFiles := Some saved,
                        updatedAt := clock w\<rparr>),
              console := console w @ [LogSaved taskId (length saved)]\<rparr>))"

text \<open>
  The materializer has thrown: the \<^verbatim>\<open>catch\<close> of lines 200-202 writes the error to the
  console, and the tick returns (line 203) with the task's record as it was.
\<close>

definition tick_download_failed :: "nat \<Rightarrow> server \<Rightarrow> server" where
  "tick_download_failed k w =
     (let timer = of_timer (ticks w ! k);
          taskId = callback_task (timers w ! timer)
      in set_phase k Returned (w\<lparr>console := console w @ [LogDownloadError taskId]\<rparr>))"

text \<open>\<^verbatim>\<open>kieRecordInfo\<close> has failed for tick \<open>k\<close>: the \<^verbatim>\<open>catch\<close> of lines 213-219.\<close>

definition tick_failed :: "nat \<Rightarrow> server \<Rightarrow> server" where
  "tick_failed k w =
     (let timer = of_timer (ticks w ! k);
          taskId = callback_task (timers w ! timer);
          w1 = w\<lparr>console := console w @ [LogFetchError taskId]\<rparr>
      in if maxAttempts \<le> attempts (timers w1 ! timer)
         then set_phase k Returned (stop_poll timer taskId w1)
         else set_phase k Returned w1)"

text \<open>
  What can happen to the process. A timer that is not cleared can fire at any moment,
  also while earlier ticks of it are still suspended: \<^verbatim>\<open>setInterval\<close> does not wait for
  the promise its callback returns (the period is 5 s, the request's timeout 20 s).
  An event that cannot happen in a state has no successor; so the downloads of a tick
  whose materializer never settles do not settle.
\<close>

datatype event =
    StartPoll string
  | TimerFires nat
  | RecordInfo nat jsval
  | RecordInfoFails nat
  | DownloadsSettle nat
  | Elapse nat

definition awaiting_fetch :: "server \<Rightarrow> nat \<Rightarrow> bool" where
  "awaiting_fetch w k =
     (k < length (ticks w) \<and> phase (ticks w ! k) = AwaitingRecordInfo
      \<and> of_timer (ticks w ! k) < length (timers w))"

fun step :: "platform \<Rightarrow> network \<Rightarrow> event \<Rightarrow> server \<Rightarrow> server option" where
  "step P net (StartPoll taskId) w = Some (startServerSidePoll taskId w)"
| "step P net (TimerFires t) w =
     (if t < length (timers w) \<and> \<not> cleared (timers w ! t) then Some (tick_begin t w) else None)"
| "step P net (RecordInfo k kieResp) w =
     (if awaiting_fetch w k then Some (tick_fetched P net k kieResp w) else None)"
| "step P net (RecordInfoFails k) w =
     (if awaiting_fetch w k then Some (tick_failed k w) else None)"
| "step P net (DownloadsSettle k) w =
     (if k < length (ticks w) \<and> of_timer (ticks w ! k) < length (timers w)
      then (case phase (ticks w ! k) of
              AwaitingDownload (Returns saved) \<Rightarrow> Some (tick_saved k saved w)
            | AwaitingDownload (Throws e) \<Rightarrow> Some (tick_download_failed k w)
            | _ \<Rightarrow> None)
      else None)"
| "step P net (Elapse n) w = Some (w\<lparr>clock := clock w + n\<rparr>)"

fun run :: "platform \<Rightarrow> network \<Rightarrow> event list \<Rightarrow> server \<Rightarrow> server option" where
  "run P net [] w = Some w"
| "run P net (e # es) w =
     (case step P net e w of None \<Rightarrow> None | Some w' \<Rightarrow> run P net es w')"

text \<open>The process after start-up (line 20 has made the download root).\<close>

definition boot :: "platform \<Rightarrow> server" where
  "boot P =
     \<lparr>taskCache = Map.empty, activePolls = Map.empty, timers = [], ticks = [],
      disk = \<lparr>files = Map.empty, dirs = {DOWNLOAD_DIR P}, gets = []\<rparr>,
      clock = 0, console = []\<rparr>"

section \<open>Routes (server.js, lines 308-325 and 342-377)\<close>

text \<open>
  \<^verbatim>\<open>GET /api/task/:taskId\<close> for a task that has a record: the \<^verbatim>\<open>data\<close> object of the
  reply (lines 310-325). \<open>None\<close> stands for the other branch, which asks upstream.
\<close>

record task_reply =
  reply_taskId :: string
  reply_status :: jsval
  reply_lastUpdated :: nat
  reply_sunoData :: jsval
  reply_downloaded :: bool
  reply_localFiles :: "saved_file list"

definition task_route_cached :: "string \<Rightarrow> server \<Rightarrow> task_reply option" where
  "task_route_cached taskId w =
     (case taskCache w taskId of
        None \<Rightarrow> None
      | Some cached \<Rightarrow>
          Some \<lparr>reply_taskId = taskId,
                reply_status = status cached,
                reply_lastUpdated = updatedAt cached,
                reply_sunoData = js_or (sunoData cached) (JArr []),
                reply_downloaded = (case downloaded cached of None \<Rightarrow> False | Some b \<Rightarrow> b),
                reply_localFiles = (case localFiles cached of None \<Rightarrow> [] | Some fs \<Rightarrow> fs)\<rparr>)"

text \<open>
  \<^verbatim>\<open>GET /download\<close>. A query parameter is absent or a string; the empty string is falsy.
\<close>

definition given :: "string option \<Rightarrow> bool" where
  "given q = (case q of None \<Rightarrow> False | Some s \<Rightarrow> s \<noteq> [])"

text \<open>\<^verbatim>\<open>s.includes(t)\<close>.\<close>

fun str_includes :: "string \<Rightarrow> string \<Rightarrow> bool" where
  "str_includes [] t = (t = [])"
| "str_includes (c # cs) t = (take (length t) (c # cs) = t \<or> str_includes cs t)"

datatype download_reply =
    SendFile string string
  | MissingUrl
  | StreamRemote string "string option"
  | DownloadFailed
  | Uncaught js_error

text \<open>
  Lines 346-364: the local file to send, if any. Line 352 builds a URL outside any
  \<^verbatim>\<open>try\<close>, so an invalid \<^verbatim>\<open>url\<close> parameter raises out of the handler.
\<close>

definition local_file ::
  "platform \<Rightarrow> server \<Rightarrow> string option \<Rightarrow> string option \<Rightarrow> js_error + saved_file option" where
  "local_file P w fileUrl taskId =
     (if \<not> given taskId then Inr None
      else case taskCache w (case taskId of None \<Rightarrow> [] | Some t \<Rightarrow> t) of
        None \<Rightarrow> Inr None
      | Some entry \<Rightarrow>
          (case localFiles entry of
             None \<Rightarrow> Inr None
           | Some [] \<Rightarrow> Inr None
           | Some (f0 # fs) \<Rightarrow>
               (let fallback =
                      (let audioLocal =
                             (case find (\<lambda>f. ftype f = Audio) (f0 # fs) of
                                None \<Rightarrow> f0 | Some f \<Rightarrow> f)
                       in if existsSync (disk w) (fpath audioLocal) then Some audioLocal
                          else None)
                in if given fileUrl then
                     (case url_pathname P (case fileUrl of None \<Rightarrow> [] | Some u \<Rightarrow> u) of
                        None \<Rightarrow> Inl TypeError
                      | Some pn \<Rightarrow>
                          (let basename = path_basename P pn;
                               found = find (\<lambda>f. (fname f \<noteq> [] \<and> str_includes (fname f) basename)
                                                  \<or> fname f = basename) (f0 # fs)
                           in case found of
                                None \<Rightarrow> Inr fallback
                              | Some f \<Rightarrow>
                                  if existsSync (disk w) (fpath f) then Inr (Some f)
                                  else Inr fallback))
                   else Inr fallback)))"

text \<open>Lines 366-376: no local file was sent.\<close>

definition stream_remote :: "platform \<Rightarrow> network \<Rightarrow> string option \<Rightarrow> download_reply" where
  "stream_remote P net fileUrl =
     (if \<not> given fileUrl then MissingUrl
      else
        (let u = (case fileUrl of None \<Rightarrow> [] | Some u \<Rightarrow> u)
         in case net (JStr u) of
              None \<Rightarrow> DownloadFailed
            | Some r \<Rightarrow>
                (case url_pathname P u of
                   None \<Rightarrow> DownloadFailed
                 | Some pn \<Rightarrow>
                     StreamRemote
                       (if path_basename P pn = [] then ''file.bin'' else path_basename P pn)
                       (case content_type r of
                          None \<Rightarrow> None
                        | Some c \<Rightarrow> if c = [] then None else Some c))))"

definition download_route ::
  "platform \<Rightarrow> network \<Rightarrow> server \<Rightarrow> string option \<Rightarrow> string option \<Rightarrow> download_reply" where
  "download_route P net w fileUrl taskId =
     (case local_file P w fileUrl taskId of
        Inl e \<Rightarrow> Uncaught e
      | Inr (Some f) \<Rightarrow> SendFile (fpath f) (fname f)
      | Inr None \<Rightarrow> stream_remote P net fileUrl)"


section \<open>Notions used to state the properties\<close>

subsection \<open>Normalizer\<close>

text \<open>The value of \<^verbatim>\<open>v1 || v2 || ... || vn\<close>: the first truthy operand, else the last.\<close>

fun js_first_truthy :: "jsval list \<Rightarrow> jsval" where
  "js_first_truthy [] = JUndefined"
| "js_first_truthy [v] = v"
| "js_first_truthy (v # vs) = (if truthy v then v else js_first_truthy vs)"

text \<open>
  The two fields the status is looked for in, in order: \<^verbatim>\<open>status\<close> and
  \<^verbatim>\<open>response.status\<close> of the payload's \<^verbatim>\<open>data\<close> (of the payload itself when it has no
  truthy \<^verbatim>\<open>data\<close>).
\<close>

definition status_fields :: "jsval \<Rightarrow> jsval list" where
  "status_fields kieResp =
     (let data = js_or (opt_prop kieResp ''data'') kieResp
      in [opt_prop data ''status'', opt_prop (opt_prop data ''response'') ''status''])"

text \<open>
  The status as the specification words it: the first non-empty string among the two
  fields, upper-cased, and UNKNOWN when there is none.
\<close>

fun first_nonempty_string :: "jsval list \<Rightarrow> string option" where
  "first_nonempty_string [] = None"
| "first_nonempty_string (JStr s # vs) =
     (if s \<noteq> [] then Some s else first_nonempty_string vs)"
| "first_nonempty_string (v # vs) = first_nonempty_string vs"

definition spec_status :: "jsval \<Rightarrow> jsval" where
  "spec_status kieResp =
     (case first_nonempty_string (status_fields kieResp) of
        None \<Rightarrow> JStr ''UNKNOWN''
      | Some s \<Rightarrow> JStr (toUpperCase s))"

text \<open>
  The nesting paths \<^verbatim>\<open>extractSunoData\<close> probes: the four of line 70, read from the
  payload's \<^verbatim>\<open>data\<close>, and the \<^verbatim>\<open>sunoData\<close> of the object of line 73.
\<close>

definition primary_paths :: "jsval \<Rightarrow> jsval list" where
  "primary_paths kieResp =
     (let data = js_or (opt_prop kieResp ''data'') kieResp
      in [opt_prop (opt_prop data ''response'') ''sunoData'',
          opt_prop data ''sunoData'',
          opt_prop data ''response'',
          opt_prop (opt_prop (opt_prop data ''data'') ''response'') ''sunoData''])"

definition secondary_path :: "jsval \<Rightarrow> jsval" where
  "secondary_path kieResp =
     opt_prop (js_or (opt_prop (opt_prop kieResp ''data'') ''data'')
                     (opt_prop (opt_prop kieResp ''data'') ''response'')) ''sunoData''"

text \<open>
  The assets as the specification words them: the first array among the probed paths,
  and the empty sequence when there is none.
\<close>

fun first_array :: "jsval list \<Rightarrow> jsval" where
  "first_array [] = JArr []"
| "first_array (JArr xs # vs) = JArr xs"
| "first_array (v # vs) = first_array vs"

definition spec_assets :: "jsval \<Rightarrow> jsval" where
  "spec_assets kieResp = first_array (primary_paths kieResp @ [secondary_path kieResp])"

subsection \<open>Materializer\<close>

definition nonempty_file :: "host \<Rightarrow> string \<Rightarrow> bool" where
  "nonempty_file h p = (case files h p of None \<Rightarrow> False | Some n \<Rightarrow> 0 < n)"

text \<open>The title of the track at index \<open>i\<close> has a string form: line 110 does not throw.\<close>

definition title_converts :: "platform \<Rightarrow> nat \<Rightarrow> jsval \<Rightarrow> bool" where
  "title_converts P i elem =
     (case safeTitle P (js_or elem (JObj [])) i of Inl e \<Rightarrow> False | Inr t \<Rightarrow> True)"

fun titles_convert :: "platform \<Rightarrow> nat \<Rightarrow> jsval list \<Rightarrow> bool" where
  "titles_convert P i [] = True"
| "titles_convert P i (elem # rest) =
     (title_converts P i elem \<and> titles_convert P (Suc i) rest)"

text \<open>
  The plan of a task: for every asset the loop reaches with a URL that parses, the URL
  and the file it is saved as, in the order of the loop. The loop does not go beyond a
  track whose title has no string form.
\<close>

definition asset_plan ::
  "platform \<Rightarrow> string \<Rightarrow> string \<Rightarrow> string \<Rightarrow> string \<Rightarrow> asset_kind \<Rightarrow> jsval
     \<Rightarrow> (jsval \<times> saved_file) list" where
  "asset_plan P taskDir pre sfx dflt kind url =
     (case url_path P url of
        Inl e \<Rightarrow> []
      | Inr pn \<Rightarrow>
          (let ext = (if path_extname P pn = [] then dflt else path_extname P pn);
               name = pre @ sfx @ ext
           in [(url, \<lparr>ftype = kind, fpath = path_join P taskDir name, fname = name\<rparr>)]))"

definition track_plan ::
  "platform \<Rightarrow> string \<Rightarrow> nat \<Rightarrow> jsval \<Rightarrow> (jsval \<times> saved_file) list" where
  "track_plan P taskDir i elem =
     (let it = js_or elem (JObj []);
          audioUrl = js_or (field it ''audioUrl'') (js_or (field it ''audio_url'')
                    (js_or (field it ''streamAudioUrl'') (field it ''stream_audio_url'')));
          sourceAudioUrl = js_or (field it ''sourceAudioUrl'') (field it ''source_audio_url'');
          imageUrl = js_or (field it ''imageUrl'') (field it ''image_url'');
          sourceImageUrl = js_or (field it ''sourceImageUrl'') (field it ''source_image_url'')
      in case safeTitle P it i of
           Inl e \<Rightarrow> []
         | Inr title \<Rightarrow>
             (let pre = decimal (i + 1) @ ''_'' @ title
              in (if truthy audioUrl then asset_plan P taskDir pre [] ''.mp3'' Audio audioUrl
                  else [])
               @ (if truthy sourceAudioUrl
                  then asset_plan P taskDir pre ''_source'' ''.mp3'' AudioSource sourceAudioUrl
                  else [])
               @ (if truthy imageUrl
                  then asset_plan P taskDir pre ''_cover'' ''.png'' Cover imageUrl
                  else if truthy sourceImageUrl
                  then asset_plan P taskDir pre ''_cover_source'' ''.png'' CoverSource
                         sourceImageUrl
                  else [])))"

fun tracks_plan ::
  "platform \<Rightarrow> string \<Rightarrow> nat \<Rightarrow> jsval list \<Rightarrow> (jsval \<times> saved_file) list" where
  "tracks_plan P taskDir i [] = []"
| "tracks_plan P taskDir i (elem # rest) =
     (if title_converts P i elem
      then track_plan P taskDir i elem @ tracks_plan P taskDir (Suc i) rest
      else [])"

definition task_plan :: "platform \<Rightarrow> string \<Rightarrow> jsval \<Rightarrow> (jsval \<times> saved_file) list" where
  "task_plan P taskId arr =
     (case arr of
        JArr elems \<Rightarrow> tracks_plan P (path_join P (DOWNLOAD_DIR P) taskId) 0 elems
      | _ \<Rightarrow> [])"

text \<open>Whether every title of the task's array has a string form.\<close>

definition task_titles_convert :: "platform \<Rightarrow> jsval \<Rightarrow> bool" where
  "task_titles_convert P arr =
     (case arr of JArr elems \<Rightarrow> titles_convert P 0 elems | _ \<Rightarrow> True)"

text \<open>
  Carrying out a plan: what the loop does with it, one asset after the other, as long
  as it is running.
\<close>

definition fetch_one :: "network \<Rightarrow> jsval \<times> saved_file \<Rightarrow> progress \<Rightarrow> progress" where
  "fetch_one net uf sh =
     (case sh of
        (Returns saved, h) \<Rightarrow>
          (case downloadFileToPath net (fst uf) (fpath (snd uf)) h of
             (Returns p, h') \<Rightarrow> (Returns (saved @ [snd uf]), h')
           | (Throws e, h') \<Rightarrow> (Returns saved, h')
           | (NeverSettles, h') \<Rightarrow> (NeverSettles, h'))
      | (Throws e, h) \<Rightarrow> (Throws e, h)
      | (NeverSettles, h) \<Rightarrow> (NeverSettles, h))"

fun fetch_all :: "network \<Rightarrow> (jsval \<times> saved_file) list \<Rightarrow> progress \<Rightarrow> progress" where
  "fetch_all net [] sh = sh"
| "fetch_all net (uf # plan) sh = fetch_all net plan (fetch_one net uf sh)"

text \<open>
  The assets of a plan whose body stream would fail before its end, were they
  requested.
\<close>

definition body_breaks :: "network \<Rightarrow> jsval \<Rightarrow> bool" where
  "body_breaks net u = (case net u of None \<Rightarrow> False | Some r \<Rightarrow> \<not> body_ends r)"

subsection \<open>Poll scheduler\<close>

text \<open>
  The console counts what a tick does for a task: line 191 is written right before the
  materializer is called (line 193), and line 199 right after \<^verbatim>\<open>downloaded\<close> is set.
\<close>

fun is_final_line :: "string \<Rightarrow> log_line \<Rightarrow> bool" where
  "is_final_line taskId (LogFinal t st) = (t = taskId)"
| "is_final_line taskId l = False"

fun is_saved_line :: "string \<Rightarrow> log_line \<Rightarrow> bool" where
  "is_saved_line taskId (LogSaved t n) = (t = taskId)"
| "is_saved_line taskId l = False"

definition materializer_calls :: "server \<Rightarrow> string \<Rightarrow> nat" where
  "materializer_calls w taskId = length (filter (is_final_line taskId) (console w))"

definition downloaded_marks :: "server \<Rightarrow> string \<Rightarrow> nat" where
  "downloaded_marks w taskId = length (filter (is_saved_line taskId) (console w))"

fun is_download_error_line :: "string \<Rightarrow> log_line \<Rightarrow> bool" where
  "is_download_error_line taskId (LogDownloadError t) = (t = taskId)"
| "is_download_error_line taskId l = False"

text \<open>
  The pollers of a task that are active: the interval timers made for it by line 170
  and not cleared since.
\<close>

definition live_pollers :: "server \<Rightarrow> string \<Rightarrow> nat list" where
  "live_pollers w taskId =
     filter (\<lambda>t. callback_task (timers w ! t) = taskId \<and> \<not> cleared (timers w ! t))
       [0 ..< length (timers w)]"

text \<open>Every handle in \<^verbatim>\<open>activePolls\<close> names a timer of its task that is not cleared.\<close>

definition handles_live :: "server \<Rightarrow> bool" where
  "handles_live w =
     (\<forall>t h. activePolls w t = Some h \<longrightarrow>
        handle_timer h < length (timers w) \<and>
        callback_task (timers w ! handle_timer h) = t \<and>
        \<not> cleared (timers w ! handle_timer h))"

text \<open>
  \<open>n\<close> ticks of timer 0, one after the other, each answered with \<open>kieResp\<close>; the
  ticks are numbered from \<open>k\<close>.
\<close>

fun rounds :: "nat \<Rightarrow> nat \<Rightarrow> jsval \<Rightarrow> event list" where
  "rounds k 0 kieResp = []"
| "rounds k (Suc n) kieResp = TimerFires 0 # RecordInfo k kieResp # rounds (Suc k) n kieResp"

subsection \<open>Asset retrieval\<close>

text \<open>The local files of the task a download request names; none when it names no task.\<close>

definition task_files :: "server \<Rightarrow> string option \<Rightarrow> saved_file list" where
  "task_files w taskId =
     (if given taskId
      then (case taskCache w (case taskId of None \<Rightarrow> [] | Some t \<Rightarrow> t) of
              None \<Rightarrow> []
            | Some entry \<Rightarrow> (case localFiles entry of None \<Rightarrow> [] | Some fs \<Rightarrow> fs))
      else [])"

text \<open>The test of line 353: the file's name contains the basename.\<close>

definition name_matches :: "string \<Rightarrow> saved_file \<Rightarrow> bool" where
  "name_matches basename f =
     ((fname f \<noteq> [] \<and> str_includes (fname f) basename) \<or> fname f = basename)"

definition kept_on_disk :: "host \<Rightarrow> saved_file option \<Rightarrow> saved_file option" where
  "kept_on_disk h c =
     (case c of None \<Rightarrow> None | Some f \<Rightarrow> if existsSync h (fpath f) then Some f else None)"

fun first_some :: "'a option list \<Rightarrow> 'a option" where
  "first_some [] = None"
| "first_some (Some x # cs) = Some x"
| "first_some (None # cs) = first_some cs"

text \<open>The first local file whose name matches the basename of the URL's path.\<close>

definition matching_file ::
  "platform \<Rightarrow> string option \<Rightarrow> saved_file list \<Rightarrow> saved_file option" where
  "matching_file P fileUrl lfs =
     (if given fileUrl
      then (case url_pathname P (case fileUrl of None \<Rightarrow> [] | Some u \<Rightarrow> u) of
              None \<Rightarrow> None
            | Some pn \<Rightarrow> find (name_matches (path_basename P pn)) lfs)
      else None)"

text \<open>
  The local candidates of a request, in the order they are tried: the file matching the
  URL; the first audio file; and, for a task with no audio file, its first file. Each
  counts only when it is on disk.
\<close>

definition resolution_order ::
  "platform \<Rightarrow> server \<Rightarrow> string option \<Rightarrow> string option \<Rightarrow> saved_file option list" where
  "resolution_order P w fileUrl taskId =
     (let lfs = task_files w taskId
      in [kept_on_disk (disk w) (matching_file P fileUrl lfs),
          kept_on_disk (disk w) (find (\<lambda>f. ftype f = Audio) lfs),
          kept_on_disk (disk w)
            (case find (\<lambda>f. ftype f = Audio) lfs of
               None \<Rightarrow> (case lfs of [] \<Rightarrow> None | f # fs \<Rightarrow> Some f)
             | Some f \<Rightarrow> None)])"

text \<open>
  The reply as the specification words it: the matching local file, else the first
  local audio file, else the remote stream.
\<close>

definition spec_download ::
  "platform \<Rightarrow> network \<Rightarrow> server \<Rightarrow> string option \<Rightarrow> string option \<Rightarrow> download_reply" where
  "spec_download P net w fileUrl taskId =
     (let lfs = task_files w taskId
      in case first_some
           [kept_on_disk (disk w) (matching_file P fileUrl lfs),
            kept_on_disk (disk w) (find (\<lambda>f. ftype f = Audio) lfs)] of
           Some f \<Rightarrow> SendFile (fpath f) (fname f)
         | None \<Rightarrow> stream_remote P net fileUrl)"

subsection \<open>A small platform to evaluate the model on\<close>

text \<open>
  URLs of the form \<^verbatim>\<open>https://host/path\<close>, and paths whose segments are separated by a
  slash; numbers are written with their decimal digits (the samples have none of
  \<open>10\<^sup>2\<^sup>1\<close> or more), and a directory whose name has more than 255 characters cannot
  be made.
\<close>

definition simple_pathname :: "string \<Rightarrow> string option" where
  "simple_pathname u =
     (if take 8 u = ''https://''
      then (let p = dropWhile (\<lambda>c. c \<noteq> CHR ''/'') (drop 8 u)
            in Some (if p = [] then ''/'' else p))
      else None)"

definition simple_basename :: "string \<Rightarrow> string" where
  "simple_basename p = rev (takeWhile (\<lambda>c. c \<noteq> CHR ''/'') (rev p))"

definition simple_extname :: "string \<Rightarrow> string" where
  "simple_extname p =
     (let b = simple_basename p
      in if b = [] \<or> CHR ''.'' \<notin> set (tl b) then []
         else CHR ''.'' # rev (takeWhile (\<lambda>c. c \<noteq> CHR ''.'') (rev b)))"

definition simple_platform :: platform where
  "simple_platform =
     \<lparr>url_pathname = simple_pathname, path_extname = simple_extname,
      path_basename = simple_basename, path_join = (\<lambda>a b. a @ ''/'' @ b),
      DOWNLOAD_DIR = ''downloads'',
      number_to_string = (\<lambda>n. if n < 0 then ''-'' @ decimal (nat (- n)) else decimal (nat n)),
      mkdir_fails = (\<lambda>p. 255 < length (simple_basename p))\<rparr>"


subsection \<open>Sample inputs\<close>

abbreviation track_a :: jsval where
  "track_a \<equiv> JObj [(''audioUrl'', JStr ''https://cdn/a.mp3''), (''title'', JStr ''Song'')]"

abbreviation track_b :: jsval where
  "track_b \<equiv> JObj [(''audio_url'', JStr ''https://cdn/b.mp3'')]"

abbreviation payload :: "string \<Rightarrow> jsval list \<Rightarrow> jsval" where
  "payload st tracks \<equiv>
     JObj [(''code'', JNum 200), (''msg'', JStr ''success''),
           (''data'', JObj [(''taskId'', JStr ''t1''), (''status'', JStr st),
                            (''response'', JObj [(''sunoData'', JArr tracks)])])]"

text \<open>A track with an audio URL and a cover image.\<close>

abbreviation track_c :: jsval where
  "track_c \<equiv>
     JObj [(''audioUrl'', JStr ''https://cdn/a.mp3''), (''imageUrl'', JStr ''https://cdn/c.png''),
           (''title'', JStr ''Song'')]"

text \<open>A network on which one URL answers, and one on which none does.\<close>

abbreviation net_only :: "string \<Rightarrow> network" where
  "net_only u \<equiv>
     (\<lambda>v. if v = JStr u
          then Some \<lparr>content_type = Some ''audio/mpeg'', body_size = 10, body_ends = True\<rparr>
          else None)"

abbreviation net_down :: network where
  "net_down \<equiv> (\<lambda>v. None)"

text \<open>
  A network on which every URL answers, but the body of one of them fails after 4
  bytes.
\<close>

abbreviation net_breaking :: "string \<Rightarrow> network" where
  "net_breaking u \<equiv>
     (\<lambda>v. Some \<lparr>content_type = Some ''audio/mpeg'', body_size = (if v = JStr u then 4 else 10),
                 body_ends = (v \<noteq> JStr u)\<rparr>)"

text \<open>A track whose title is an object with a property \<^verbatim>\<open>toString\<close>.\<close>

abbreviation track_t :: jsval where
  "track_t \<equiv>
     JObj [(''audioUrl'', JStr ''https://cdn/c.mp3''),
           (''title'', JObj [(''toString'', JNum 1)])]"

text \<open>Task t1 after \<^verbatim>\<open>startServerSidePoll\<close> and the first firing of its timer.\<close>

abbreviation first_tick :: server where
  "first_tick \<equiv> tick_begin 0 (startServerSidePoll ''t1'' (boot simple_platform))"

section \<open>Unfolding the model on concrete inputs\<close>

lemmas eval_defs =
  downloadAssetsForTask_def save_track_def save_asset_def downloadFileToPath_def
  simple_platform_def simple_pathname_def simple_extname_def simple_basename_def
  safeTitle_def sanitize_char_def decimal.simps js_or_def existsSync_def boot_def Let_def
  task_plan_def track_plan_def asset_plan_def nonempty_file_def url_path_def
  title_converts_def

lemmas poll_defs =
  startServerSidePoll_def tick_begin_def awaiting_fetch_def tick_saved_def set_phase_def
  stop_poll_def tick_download_failed_def

lemmas normalizer_defs =
  observed_status_def getStatusFromKieResp_def getStatus_try_def status_chain_def
  extractSunoData_def extractSunoData_try_def opt_prop_def get_prop_def js_or_def
  toUpperCase_def upper_char_def FINAL_STATUSES_def ERROR_STATUSES_def Let_def

lemmas route_defs =
  download_route_def local_file_def stream_remote_def given_def task_files_def name_matches_def
  kept_on_disk_def matching_file_def resolution_order_def spec_download_def

text \<open>The last segment of a path that ends with a name made of one character.\<close>

lemma takeWhile_replicate_append:
  "P c \<Longrightarrow> takeWhile P (replicate n c @ ys) = replicate n c @ takeWhile P ys"
  by (induction n) simp_all

section \<open>Properties of the normalizer\<close>

lemma truthy_not_nullish: "truthy v \<Longrightarrow> \<not> nullish v"
  by (cases v) auto

lemma get_prop_opt: "\<not> nullish v \<Longrightarrow> get_prop v k = Inr (opt_prop v k)"
  by (simp add: get_prop_def opt_prop_def)

lemma toUpperCase_Nil_iff: "toUpperCase s = [] \<longleftrightarrow> s = []"
  by (simp add: toUpperCase_def)

lemma status_or_unknown:
  "js_or (upper_if_string v) (JStr ''UNKNOWN'') =
     (case v of JStr s \<Rightarrow> if s = [] then JStr ''UNKNOWN'' else JStr (toUpperCase s)
      | _ \<Rightarrow> JStr ''UNKNOWN'')"
  by (cases v) (simp_all add: js_or_def toUpperCase_Nil_iff)

lemma falsy_unknown:
  "\<not> truthy v \<Longrightarrow>
     (case v of JStr s \<Rightarrow> if s = [] then JStr ''UNKNOWN'' else JStr (toUpperCase s)
      | _ \<Rightarrow> JStr ''UNKNOWN'') = JStr ''UNKNOWN''"
  by (cases v) simp_all

text \<open>
  The \<^verbatim>\<open>||\<close> chain of line 59 never raises: it yields the first truthy one of the two
  fields, or else some falsy value.
\<close>

lemma status_chain_cases:
  "status_chain k = Inr (js_first_truthy (status_fields k)) \<or>
   (\<exists>v. status_chain k = Inr v \<and> \<not> truthy v \<and> \<not> truthy (js_first_truthy (status_fields k)))"
proof -
  define data where "data = js_or (opt_prop k ''data'') k"
  define c1 where "c1 = opt_prop data ''status''"
  define c2 where "c2 = opt_prop (opt_prop data ''response'') ''status''"
  have sf: "status_fields k = [c1, c2]"
    by (simp add: status_fields_def data_def c1_def c2_def Let_def)
  have sc: "status_chain k =
      (if truthy c1 then Inr c1
       else if truthy c2 then Inr c2
       else if truthy (opt_prop k ''data'')
         then (case get_prop k ''data'' of Inl e \<Rightarrow> Inl e | Inr d \<Rightarrow> get_prop d ''status'')
         else Inr (opt_prop k ''data''))"
    by (simp add: status_chain_def data_def c1_def c2_def Let_def)
  show ?thesis
  proof (cases "truthy c1")
    case True
    then show ?thesis by (simp add: sf sc)
  next
    case f1: False
    show ?thesis
    proof (cases "truthy c2")
      case True
      then show ?thesis using f1 by (simp add: sf sc)
    next
      case f2: False
      show ?thesis
      proof (cases "truthy (opt_prop k ''data'')")
        case True
        then have d: "data = opt_prop k ''data''"
          by (simp add: data_def js_or_def)
        have nk: "\<not> nullish k"
          using True by (auto simp: opt_prop_def split: if_splits)
        have "status_chain k = Inr c1"
          using True f1 f2 nk truthy_not_nullish[OF True]
          by (simp add: sc get_prop_opt d c1_def)
        then show ?thesis using f1 f2 by (simp add: sf)
      next
        case False
        then show ?thesis using f1 f2 by (simp add: sf sc)
      qed
    qed
  qed
qed

lemma getStatus_try_total: "\<exists>v. getStatus_try k = Inr v"
  using status_chain_cases[of k] by (auto simp: getStatus_try_def)

lemma observed_status_first_truthy:
  "observed_status k =
     (case js_first_truthy (status_fields k) of
        JStr s \<Rightarrow> if s = [] then JStr ''UNKNOWN'' else JStr (toUpperCase s)
      | _ \<Rightarrow> JStr ''UNKNOWN'')"
proof -
  from status_chain_cases[of k] show ?thesis
  proof
    assume "status_chain k = Inr (js_first_truthy (status_fields k))"
    then show ?thesis
      by (simp add: observed_status_def getStatusFromKieResp_def getStatus_try_def
          status_or_unknown)
  next
    assume "\<exists>v. status_chain k = Inr v \<and> \<not> truthy v
               \<and> \<not> truthy (js_first_truthy (status_fields k))"
    then obtain v where v: "status_chain k = Inr v" "\<not> truthy v"
       "\<not> truthy (js_first_truthy (status_fields k))" by blast
    show ?thesis
      by (simp add: observed_status_def getStatusFromKieResp_def getStatus_try_def v(1)
          status_or_unknown falsy_unknown[OF v(2)] falsy_unknown[OF v(3)])
  qed
qed

text \<open>
  C6, as the specification words it, fails: a truthy top-level status that is not a
  string hides the string in \<^verbatim>\<open>response.status\<close>. On the payload
  \<^verbatim>\<open>{status: 1, response: {status: "success"}}\<close> the registry records UNKNOWN, while
  the first non-empty string found, upper-cased, is SUCCESS.
\<close>

theorem status_first_string_counterexample:
  "observed_status
     (JObj [(''status'', JNum 1), (''response'', JObj [(''status'', JStr ''success'')])])
     = JStr ''UNKNOWN''
   \<and> spec_status
     (JObj [(''status'', JNum 1), (''response'', JObj [(''status'', JStr ''success'')])])
     = JStr ''SUCCESS''"
  by (simp add: observed_status_def getStatusFromKieResp_def getStatus_try_def
      status_chain_def spec_status_def status_fields_def js_or_def opt_prop_def get_prop_def
      toUpperCase_def upper_char_def)

text \<open>
  C6, amended: for every payload, status normalization does not raise, and the status the
  registry records is found from the \<^verbatim>\<open>status\<close> field and the nested
  \<^verbatim>\<open>response.status\<close> field, in this order, by taking the first truthy value (the
  last value when none is truthy): a non-empty string is recorded upper-cased, anything
  else as UNKNOWN.
\<close>

theorem status_first_truthy:
  "(\<exists>v. getStatus_try k = Inr v) \<and>
   observed_status k =
     (case js_first_truthy (status_fields k) of
        JStr s \<Rightarrow> if s = [] then JStr ''UNKNOWN'' else JStr (toUpperCase s)
      | _ \<Rightarrow> JStr ''UNKNOWN'')"
  using getStatus_try_total[of k] observed_status_first_truthy[of k] by blast


text \<open>
  \<^verbatim>\<open>extractSunoData\<close> never raises either, and its three outcomes are these.
\<close>

lemma extract_try_total: "\<exists>v. extractSunoData_try k = Inr v"
proof -
  have "\<And>m. truthy (opt_prop m ''sunoData'') \<Longrightarrow> get_prop m ''sunoData'' = Inr (opt_prop m ''sunoData'')"
    by (auto simp: opt_prop_def get_prop_def split: if_splits)
  then show ?thesis
    by (simp add: extractSunoData_try_def Let_def)
qed

lemma first_truthy4:
  "js_first_truthy [a, b, c, d] = js_or a (js_or b (js_or c d))"
  by (simp add: js_or_def)

lemma extract_cases:
  "extractSunoData k =
     (if is_array (js_first_truthy (primary_paths k)) then js_first_truthy (primary_paths k)
      else if truthy (secondary_path k) then secondary_path k else JArr [])"
proof -
  have g: "\<And>m. truthy (opt_prop m ''sunoData'') \<Longrightarrow> get_prop m ''sunoData'' = Inr (opt_prop m ''sunoData'')"
    by (auto simp: opt_prop_def get_prop_def split: if_splits)
  show ?thesis
    unfolding extractSunoData_def extractSunoData_try_def primary_paths_def secondary_path_def
      Let_def first_truthy4
    by (simp add: g)
qed

text \<open>
  C2, as the specification words it, fails: the \<^verbatim>\<open>||\<close> chain of line 70 stops at the
  first truthy value, array or not. On the payload
  \<^verbatim>\<open>{data: {sunoData: 1, data: {response: {sunoData: [track]}}}}\<close> the second path holds
  the number 1, so the array under the fourth path is never looked at, and the result
  is the empty sequence although a probed path holds a valid array.
\<close>

theorem extract_first_array_counterexample:
  "extractSunoData
     (JObj [(''data'', JObj [(''sunoData'', JNum 1),
        (''data'', JObj [(''response'', JObj [(''sunoData'', JArr [track_a])])])])]) = JArr []
   \<and> spec_assets
     (JObj [(''data'', JObj [(''sunoData'', JNum 1),
        (''data'', JObj [(''response'', JObj [(''sunoData'', JArr [track_a])])])])]) = JArr [track_a]"
  by (simp add: normalizer_defs spec_assets_def primary_paths_def secondary_path_def)

text \<open>
  C2, amended: for every payload, asset extraction does not raise. It takes the first
  truthy value among the four paths of line 70 (the last value when none is truthy) and
  returns it when it is an array; otherwise it returns the \<^verbatim>\<open>sunoData\<close> of the object
  of line 73 when that is an array, and the empty sequence when that is falsy.
\<close>

theorem extract_first_truthy:
  "(\<exists>v. extractSunoData_try k = Inr v) \<and>
   (is_array (js_first_truthy (primary_paths k)) \<longrightarrow>
      extractSunoData k = js_first_truthy (primary_paths k)) \<and>
   (\<not> is_array (js_first_truthy (primary_paths k)) \<and> is_array (secondary_path k) \<longrightarrow>
      extractSunoData k = secondary_path k) \<and>
   (\<not> is_array (js_first_truthy (primary_paths k)) \<and> \<not> truthy (secondary_path k) \<longrightarrow>
      extractSunoData k = JArr [])"
proof -
  have "is_array (secondary_path k) \<Longrightarrow> truthy (secondary_path k)"
    by (cases "secondary_path k") simp_all
  with extract_try_total[of k] extract_cases[of k] show ?thesis
    by auto
qed

text \<open>
  The usual payload; a payload with the tracks under \<^verbatim>\<open>data.data.sunoData\<close>; and one
  with no tracks.
\<close>

theorem extract_first_truthy_witness:
  "is_array (js_first_truthy (primary_paths (payload ''SUCCESS'' [track_a])))
   \<and> extractSunoData (payload ''SUCCESS'' [track_a]) = JArr [track_a]
   \<and> \<not> is_array (js_first_truthy (primary_paths
         (JObj [(''data'', JObj [(''data'', JObj [(''sunoData'', JArr [track_a])])])])))
   \<and> is_array (secondary_path
         (JObj [(''data'', JObj [(''data'', JObj [(''sunoData'', JArr [track_a])])])]))
   \<and> extractSunoData
         (JObj [(''data'', JObj [(''data'', JObj [(''sunoData'', JArr [track_a])])])])
       = JArr [track_a]
   \<and> \<not> is_array (js_first_truthy (primary_paths (JObj [(''data'', JObj [(''status'', JStr ''PENDING'')])])))
   \<and> \<not> truthy (secondary_path (JObj [(''data'', JObj [(''status'', JStr ''PENDING'')])]))
   \<and> extractSunoData (JObj [(''data'', JObj [(''status'', JStr ''PENDING'')])]) = JArr []"
proof -
  let ?k1 = "payload ''SUCCESS'' [track_a]"
  let ?k2 = "JObj [(''data'', JObj [(''data'', JObj [(''sunoData'', JArr [track_a])])])]"
  let ?k3 = "JObj [(''data'', JObj [(''status'', JStr ''PENDING'')])]"
  have h1: "is_array (js_first_truthy (primary_paths ?k1))"
    and v1: "js_first_truthy (primary_paths ?k1) = JArr [track_a]"
    by (simp_all add: primary_paths_def normalizer_defs)
  have h2: "\<not> is_array (js_first_truthy (primary_paths ?k2))" "is_array (secondary_path ?k2)"
    and v2: "secondary_path ?k2 = JArr [track_a]"
    by (simp_all add: primary_paths_def secondary_path_def normalizer_defs)
  have h3: "\<not> is_array (js_first_truthy (primary_paths ?k3))" "\<not> truthy (secondary_path ?k3)"
    by (simp_all add: primary_paths_def secondary_path_def normalizer_defs)
  from extract_first_truthy[of ?k1] h1 v1 have c1: "extractSunoData ?k1 = JArr [track_a]"
    by simp
  from extract_first_truthy[of ?k2] h2 v2 have c2: "extractSunoData ?k2 = JArr [track_a]"
    by simp
  from extract_first_truthy[of ?k3] h3 have c3: "extractSunoData ?k3 = JArr []"
    by simp
  from h1 c1 h2 c2 h3 c3 show ?thesis by blast
qed

section \<open>Properties of the materializer\<close>

text \<open>The loop carries out the plan of the task.\<close>

lemma fetch_all_append:
  "fetch_all net (xs @ ys) sh = fetch_all net ys (fetch_all net xs sh)"
  by (induction xs arbitrary: sh) simp_all

lemma fetch_one_stuck:
  "fetch_one net uf (Throws e, h) = (Throws e, h)"
  "fetch_one net uf (NeverSettles, h) = (NeverSettles, h)"
  by (simp_all add: fetch_one_def)

lemma fetch_all_stuck:
  "fetch_all net plan (Throws e, h) = (Throws e, h)"
  "fetch_all net plan (NeverSettles, h) = (NeverSettles, h)"
  by (induction plan) (simp_all add: fetch_one_stuck)

lemma fetch_all_running:
  assumes "fetch_all net plan (r, h) = (Returns saved', h')"
  shows "\<exists>saved. r = Returns saved"
  using assms by (cases r) (simp_all add: fetch_all_stuck)

lemma save_asset_plan:
  "save_asset P net taskDir pre sfx dflt kind url sh =
     fetch_all net (asset_plan P taskDir pre sfx dflt kind url) sh"
proof (cases sh)
  case (Pair r h)
  then show ?thesis
    by (cases r)
       (simp_all add: save_asset_def asset_plan_def fetch_one_def Let_def
          split: sum.splits prod.splits outcome.splits)
qed

lemma save_track_plan:
  assumes "title_converts P i elem"
  shows "save_track P net taskDir i elem sh = fetch_all net (track_plan P taskDir i elem) sh"
proof (cases sh)
  case (Pair r h)
  from assms obtain t where t: "safeTitle P (js_or elem (JObj [])) i = Inr t"
    by (auto simp: title_converts_def split: sum.splits)
  show ?thesis
  proof (cases r)
    case (Returns saved)
    with Pair t show ?thesis
      by (simp add: save_track_def track_plan_def Let_def fetch_all_append save_asset_plan)
  next
    case (Throws e)
    with Pair show ?thesis by (simp add: save_track_def fetch_all_stuck)
  next
    case NeverSettles
    with Pair show ?thesis by (simp add: save_track_def fetch_all_stuck)
  qed
qed

lemma save_track_throws:
  assumes "\<not> title_converts P i elem"
  shows "\<exists>e. save_track P net taskDir i elem (Returns saved, h) = (Throws e, h)"
  using assms by (auto simp: title_converts_def save_track_def Let_def split: sum.splits)

lemma save_tracks_stuck:
  "save_tracks P net taskDir i elems (Throws e, h) = (Throws e, h)"
  "save_tracks P net taskDir i elems (NeverSettles, h) = (NeverSettles, h)"
  by (induction elems arbitrary: i) (simp_all add: save_track_def)

lemma save_tracks_plan:
  "titles_convert P i elems \<Longrightarrow>
     save_tracks P net taskDir i elems sh = fetch_all net (tracks_plan P taskDir i elems) sh"
  by (induction elems arbitrary: i sh) (simp_all add: fetch_all_append save_track_plan)

lemma save_tracks_returns:
  "save_tracks P net taskDir i elems (Returns saved, h) = (Returns saved', h') \<Longrightarrow>
     titles_convert P i elems"
proof (induction elems arbitrary: i saved h)
  case Nil
  then show ?case by simp
next
  case (Cons elem rest)
  show ?case
  proof (cases "title_converts P i elem")
    case False
    from save_track_throws[OF False, of net taskDir saved h] Cons.prems
    show ?thesis by (auto simp: save_tracks_stuck)
  next
    case True
    obtain r1 h1 where s1: "save_track P net taskDir i elem (Returns saved, h) = (r1, h1)"
      by (cases "save_track P net taskDir i elem (Returns saved, h)")
    with Cons.prems have run: "save_tracks P net taskDir (Suc i) rest (r1, h1) = (Returns saved', h')"
      by simp
    then obtain saved1 where "r1 = Returns saved1"
      by (cases r1) (simp_all add: save_tracks_stuck)
    with run Cons.IH True show ?thesis by simp
  qed
qed

lemma download_present:
  "nonempty_file h p \<Longrightarrow> downloadFileToPath net u p h = (Returns p, h)"
  by (simp add: downloadFileToPath_def nonempty_file_def)

lemma download_absent:
  "\<not> nonempty_file h p \<Longrightarrow>
     downloadFileToPath net u p h =
       (case net u of
          None \<Rightarrow> (Throws RequestFailed, h\<lparr>files := (files h)(p \<mapsto> 0), gets := gets h @ [u]\<rparr>)
        | Some r \<Rightarrow> (if body_ends r then Returns p else NeverSettles,
                     h\<lparr>files := (files h)(p \<mapsto> body_size r), gets := gets h @ [u]\<rparr>))"
  by (simp add: downloadFileToPath_def nonempty_file_def Let_def split: option.splits)

lemma fetch_all_present:
  "list_all (\<lambda>uf. nonempty_file h (fpath (snd uf))) plan \<Longrightarrow>
     fetch_all net plan (Returns saved, h) = (Returns (saved @ map snd plan), h)"
  by (induction plan arbitrary: saved) (simp_all add: download_present fetch_one_def)

lemma download_frame:
  "downloadFileToPath net u p h = (r, h') \<Longrightarrow>
     dirs h' = dirs h \<and> (\<forall>q. q \<noteq> p \<longrightarrow> files h' q = files h q) \<and>
     (\<forall>q. files h q \<noteq> None \<longrightarrow> files h' q \<noteq> None)"
  by (auto simp: downloadFileToPath_def Let_def split: if_splits option.splits)

lemma download_returns_file:
  "downloadFileToPath net u p h = (Returns q, h') \<Longrightarrow> files h' p \<noteq> None"
  by (auto simp: downloadFileToPath_def Let_def split: if_splits option.splits)

text \<open>One step of a plan from a running state, by what the download does.\<close>

lemma fetch_one_cases:
  assumes "downloadFileToPath net (fst uf) (fpath (snd uf)) h = (r, h1)"
  shows "fetch_one net uf (Returns saved, h) =
     (case r of Returns p \<Rightarrow> Returns (saved @ [snd uf]) | Throws e \<Rightarrow> Returns saved
        | NeverSettles \<Rightarrow> NeverSettles, h1)"
  using assms by (cases r) (simp_all add: fetch_one_def)

lemma fetch_one_frame:
  assumes "fetch_one net uf sh = (r', h')"
  shows "dirs h' = dirs (snd sh) \<and> (\<forall>q. q \<noteq> fpath (snd uf) \<longrightarrow> files h' q = files (snd sh) q) \<and>
     (\<forall>q. files (snd sh) q \<noteq> None \<longrightarrow> files h' q \<noteq> None)"
proof (cases sh)
  case (Pair r h)
  show ?thesis
  proof (cases r)
    case (Returns saved)
    obtain r1 h1 where d: "downloadFileToPath net (fst uf) (fpath (snd uf)) h = (r1, h1)"
      by (cases "downloadFileToPath net (fst uf) (fpath (snd uf)) h")
    from assms Pair Returns fetch_one_cases[OF d] have "h' = h1" by simp
    with download_frame[OF d] Pair show ?thesis by simp
  next
    case (Throws e)
    with assms Pair show ?thesis by (simp add: fetch_one_stuck)
  next
    case NeverSettles
    with assms Pair show ?thesis by (simp add: fetch_one_stuck)
  qed
qed

lemma fetch_all_frame:
  "fetch_all net plan sh = (r', h') \<Longrightarrow>
     dirs h' = dirs (snd sh) \<and> (\<forall>q. files (snd sh) q \<noteq> None \<longrightarrow> files h' q \<noteq> None)"
proof (induction plan arbitrary: sh)
  case Nil
  then show ?case by simp
next
  case (Cons uf plan)
  obtain r1 h1 where d: "fetch_one net uf sh = (r1, h1)"
    by (cases "fetch_one net uf sh")
  with Cons.prems have "fetch_all net plan (r1, h1) = (r', h')" by simp
  from Cons.IH[OF this] fetch_one_frame[OF d] show ?case by simp
qed

lemma fetch_all_distinct:
  "distinct (map (\<lambda>uf. fpath (snd uf)) plan) \<Longrightarrow>
   fetch_all net plan (Returns saved, h) = (Returns saved', h') \<Longrightarrow>
     saved' = saved @ map snd (filter (\<lambda>uf. nonempty_file h (fpath (snd uf)) \<or> net (fst uf) \<noteq> None) plan)
     \<and> gets h' = gets h @ map fst (filter (\<lambda>uf. \<not> nonempty_file h (fpath (snd uf))) plan)"
proof (induction plan arbitrary: saved h)
  case Nil
  then show ?case by simp
next
  case (Cons uf plan)
  obtain r h1 where d: "downloadFileToPath net (fst uf) (fpath (snd uf)) h = (r, h1)"
    by (cases "downloadFileToPath net (fst uf) (fpath (snd uf)) h")
  let ?r1 = "(case r of Returns p \<Rightarrow> Returns (saved @ [snd uf]) | Throws e \<Rightarrow> Returns saved
        | NeverSettles \<Rightarrow> NeverSettles)"
  have run: "fetch_all net plan (?r1, h1) = (Returns saved', h')"
    using Cons.prems(2) fetch_one_cases[OF d] by simp
  from fetch_all_running[OF run] obtain s1 where s1: "?r1 = Returns s1" by blast
  have dist: "distinct (map (\<lambda>uf. fpath (snd uf)) plan)"
    using Cons.prems(1) by simp
  have "fpath (snd uf) \<notin> (\<lambda>uf. fpath (snd uf)) ` set plan"
    using Cons.prems(1) by simp
  then have fresh: "\<forall>x \<in> set plan. fpath (snd x) \<noteq> fpath (snd uf)"
    by (metis imageI)
  have same: "\<And>x. x \<in> set plan \<Longrightarrow> nonempty_file h1 (fpath (snd x)) = nonempty_file h (fpath (snd x))"
    using download_frame[OF d] fresh by (simp add: nonempty_file_def)
  have f1: "filter (\<lambda>uf. nonempty_file h1 (fpath (snd uf)) \<or> net (fst uf) \<noteq> None) plan
          = filter (\<lambda>uf. nonempty_file h (fpath (snd uf)) \<or> net (fst uf) \<noteq> None) plan"
    by (rule filter_cong) (simp_all add: same)
  have f2: "filter (\<lambda>uf. \<not> nonempty_file h1 (fpath (snd uf))) plan
          = filter (\<lambda>uf. \<not> nonempty_file h (fpath (snd uf))) plan"
    by (rule filter_cong) (simp_all add: same)
  from run s1 have run1: "fetch_all net plan (Returns s1, h1) = (Returns saved', h')" by simp
  note ih = Cons.IH[OF dist run1, unfolded f1 f2]
  show ?case
  proof (cases "nonempty_file h (fpath (snd uf))")
    case True
    with d have "r = Returns (fpath (snd uf))" "h1 = h" by (simp_all add: download_present)
    with ih True s1 show ?thesis by simp
  next
    case False
    show ?thesis
    proof (cases "net (fst uf)")
      case None
      with d False have "r = Throws RequestFailed" "gets h1 = gets h @ [fst uf]"
        by (auto simp add: download_absent)
      with ih False None s1 show ?thesis by simp
    next
      case (Some resp)
      with d False have r: "r = (if body_ends resp then Returns (fpath (snd uf)) else NeverSettles)"
        and g: "gets h1 = gets h @ [fst uf]"
        by (auto simp add: download_absent)
      from r s1 have "r = Returns (fpath (snd uf))" by (cases "body_ends resp") simp_all
      with ih False Some s1 g show ?thesis by simp
    qed
  qed
qed

lemma download_grows:
  "downloadFileToPath net u p h = (r, h') \<Longrightarrow>
     set (gets h) \<subseteq> set (gets h') \<and>
     (case r of Returns q \<Rightarrow> True | Throws e \<Rightarrow> u \<in> set (gets h') \<and> net u = None
        | NeverSettles \<Rightarrow> u \<in> set (gets h') \<and> body_breaks net u)"
  by (auto simp: downloadFileToPath_def body_breaks_def Let_def split: if_splits option.splits)

lemma fetch_all_attempts:
  "fetch_all net plan (Returns saved, h) = (Returns saved', h') \<Longrightarrow>
     set saved \<subseteq> set saved' \<and> set (gets h) \<subseteq> set (gets h') \<and>
     (\<forall>uf \<in> set plan. snd uf \<in> set saved' \<or> (fst uf \<in> set (gets h') \<and> net (fst uf) = None))"
proof (induction plan arbitrary: saved h)
  case Nil
  then show ?case by simp
next
  case (Cons uf plan)
  obtain r h1 where d: "downloadFileToPath net (fst uf) (fpath (snd uf)) h = (r, h1)"
    by (cases "downloadFileToPath net (fst uf) (fpath (snd uf)) h")
  let ?r1 = "(case r of Returns p \<Rightarrow> Returns (saved @ [snd uf]) | Throws e \<Rightarrow> Returns saved
        | NeverSettles \<Rightarrow> NeverSettles)"
  have run: "fetch_all net plan (?r1, h1) = (Returns saved', h')"
    using Cons.prems fetch_one_cases[OF d] by simp
  from fetch_all_running[OF run] obtain s1 where s1: "?r1 = Returns s1" by blast
  from run s1 have run1: "fetch_all net plan (Returns s1, h1) = (Returns saved', h')" by simp
  note ih = Cons.IH[OF run1]
  note g = download_grows[OF d]
  have here: "snd uf \<in> set saved' \<or> (fst uf \<in> set (gets h') \<and> net (fst uf) = None)"
  proof (cases r)
    case (Returns q)
    with s1 ih show ?thesis by auto
  next
    case (Throws e)
    with g ih show ?thesis by auto
  next
    case NeverSettles
    with s1 show ?thesis by simp
  qed
  have "set saved \<subseteq> set s1" using s1 by (cases r) auto
  with ih g here show ?case by auto
qed

text \<open>A file that the loop returns is on the disk.\<close>

lemma fetch_all_on_disk:
  "fetch_all net plan (Returns saved, h) = (Returns saved', h') \<Longrightarrow>
   \<forall>f \<in> set saved. files h (fpath f) \<noteq> None \<Longrightarrow>
     \<forall>f \<in> set saved'. files h' (fpath f) \<noteq> None"
proof (induction plan arbitrary: saved h)
  case Nil
  then show ?case by simp
next
  case (Cons uf plan)
  obtain r h1 where d: "downloadFileToPath net (fst uf) (fpath (snd uf)) h = (r, h1)"
    by (cases "downloadFileToPath net (fst uf) (fpath (snd uf)) h")
  let ?r1 = "(case r of Returns p \<Rightarrow> Returns (saved @ [snd uf]) | Throws e \<Rightarrow> Returns saved
        | NeverSettles \<Rightarrow> NeverSettles)"
  have run: "fetch_all net plan (?r1, h1) = (Returns saved', h')"
    using Cons.prems(1) fetch_one_cases[OF d] by simp
  from fetch_all_running[OF run] obtain s1 where s1: "?r1 = Returns s1" by blast
  from run s1 have run1: "fetch_all net plan (Returns s1, h1) = (Returns saved', h')" by simp
  have old: "\<forall>f \<in> set saved. files h1 (fpath f) \<noteq> None"
    using Cons.prems(2) download_frame[OF d] by blast
  have "\<forall>f \<in> set s1. files h1 (fpath f) \<noteq> None"
  proof (cases r)
    case (Returns q)
    with d have "files h1 (fpath (snd uf)) \<noteq> None" by (simp add: download_returns_file)
    with old s1 Returns show ?thesis by auto
  next
    case (Throws e)
    with old s1 show ?thesis by auto
  next
    case NeverSettles
    with s1 show ?thesis by simp
  qed
  from Cons.IH[OF run1 this] show ?case .
qed

text \<open>The loop comes to its end when no body that it asks for fails.\<close>

lemma fetch_all_returns:
  "\<forall>uf \<in> set plan. \<not> body_breaks net (fst uf) \<Longrightarrow>
     \<exists>saved' h'. fetch_all net plan (Returns saved, h) = (Returns saved', h')"
proof (induction plan arbitrary: saved h)
  case Nil
  then show ?case by simp
next
  case (Cons uf plan)
  obtain r h1 where d: "downloadFileToPath net (fst uf) (fpath (snd uf)) h = (r, h1)"
    by (cases "downloadFileToPath net (fst uf) (fpath (snd uf)) h")
  from Cons.prems have nb: "\<not> body_breaks net (fst uf)" by simp
  have "r \<noteq> NeverSettles"
    using download_grows[OF d] nb by (cases r) simp_all
  then obtain s1 where "fetch_one net uf (Returns saved, h) = (Returns s1, h1)"
    using fetch_one_cases[OF d, of saved] by (cases r) simp_all
  with Cons.IH[of s1 h1] Cons.prems show ?case by simp
qed

text \<open>
  The materializer and the plan. A call that returns has made (or found) the directory
  of the task, has converted every title and has carried out the plan.
\<close>

lemma materializer_returned:
  assumes "downloadAssetsForTask P net taskId arr h = (Returns saved, h')"
  shows "task_titles_convert P arr \<and>
     (\<exists>g. files g = files h \<and> gets g = gets h \<and>
        (arr \<noteq> JArr [] \<and> is_array arr \<longrightarrow> existsSync g (path_join P (DOWNLOAD_DIR P) taskId)) \<and>
        fetch_all net (task_plan P taskId arr) (Returns [], g) = (Returns saved, h'))"
proof (cases arr)
  case (JArr elems)
  show ?thesis
  proof (cases elems)
    case Nil
    with JArr assms show ?thesis
      by (simp add: downloadAssetsForTask_def task_plan_def task_titles_convert_def)
  next
    case (Cons e es)
    let ?d = "path_join P (DOWNLOAD_DIR P) taskId"
    show ?thesis
    proof (cases "existsSync h ?d")
      case True
      with JArr Cons assms
      have run: "save_tracks P net ?d 0 elems (Returns [], h) = (Returns saved, h')"
        by (simp add: downloadAssetsForTask_def Let_def)
      note tc = save_tracks_returns[OF run]
      with run have "fetch_all net (tracks_plan P ?d 0 elems) (Returns [], h) = (Returns saved, h')"
        by (simp add: save_tracks_plan)
      with tc JArr True show ?thesis
        by (intro conjI exI[of _ h]) (simp_all add: task_plan_def task_titles_convert_def)
    next
      case False
      let ?g = "h\<lparr>dirs := insert ?d (dirs h)\<rparr>"
      from False JArr Cons assms have nf: "\<not> mkdir_fails P ?d"
        by (auto simp: downloadAssetsForTask_def Let_def split: if_splits)
      with False JArr Cons assms
      have run: "save_tracks P net ?d 0 elems (Returns [], ?g) = (Returns saved, h')"
        by (simp add: downloadAssetsForTask_def Let_def)
      note tc = save_tracks_returns[OF run]
      with run have "fetch_all net (tracks_plan P ?d 0 elems) (Returns [], ?g) = (Returns saved, h')"
        by (simp add: save_tracks_plan)
      with tc JArr show ?thesis
        by (intro conjI exI[of _ ?g]) (simp_all add: task_plan_def task_titles_convert_def existsSync_def)
    qed
  qed
qed (use assms in \<open>simp_all add: downloadAssetsForTask_def task_plan_def task_titles_convert_def\<close>)

text \<open>With the directory of the task in place, the materializer is the plan carried out.\<close>

lemma materializer_plan:
  assumes "task_titles_convert P arr"
    and "existsSync h (path_join P (DOWNLOAD_DIR P) taskId) \<or> arr = JArr [] \<or> \<not> is_array arr"
  shows "downloadAssetsForTask P net taskId arr h
           = fetch_all net (task_plan P taskId arr) (Returns [], h)"
proof (cases arr)
  case (JArr elems)
  show ?thesis
  proof (cases elems)
    case Nil
    with JArr show ?thesis by (simp add: downloadAssetsForTask_def task_plan_def)
  next
    case (Cons e es)
    let ?d = "path_join P (DOWNLOAD_DIR P) taskId"
    from assms(1) JArr have tc: "titles_convert P 0 elems"
      by (simp add: task_titles_convert_def)
    from assms(2) JArr Cons have "existsSync h ?d" by simp
    with JArr Cons
    have "downloadAssetsForTask P net taskId arr h = save_tracks P net ?d 0 elems (Returns [], h)"
      by (simp add: downloadAssetsForTask_def Let_def del: save_tracks.simps)
    with JArr show ?thesis
      by (simp add: task_plan_def save_tracks_plan[OF tc])
  qed
qed (simp_all add: downloadAssetsForTask_def task_plan_def)

text \<open>A task whose directory cannot be made: the materializer throws at line 100.\<close>

lemma materializer_needs_directory:
  assumes "is_array arr" and "arr \<noteq> JArr []"
    and "\<not> existsSync h (path_join P (DOWNLOAD_DIR P) taskId)"
    and "mkdir_fails P (path_join P (DOWNLOAD_DIR P) taskId)"
  shows "downloadAssetsForTask P net taskId arr h = (Throws FsError, h)"
proof (cases arr)
  case (JArr elems)
  with assms(2) obtain e es where "elems = e # es" by (cases elems) simp_all
  with JArr assms(3,4) show ?thesis
    by (simp add: downloadAssetsForTask_def Let_def del: save_tracks.simps)
qed (use assms(1) in simp_all)

text \<open>
  The materializer returns when the directory of the task is there or can be made, every
  title has a string form, and no body that the plan asks for fails.
\<close>

lemma materializer_returns:
  assumes "task_titles_convert P arr"
    and "existsSync h (path_join P (DOWNLOAD_DIR P) taskId)
         \<or> \<not> mkdir_fails P (path_join P (DOWNLOAD_DIR P) taskId)"
    and "\<forall>uf \<in> set (task_plan P taskId arr). \<not> body_breaks net (fst uf)"
  shows "\<exists>saved h'. downloadAssetsForTask P net taskId arr h = (Returns saved, h')"
proof (cases arr)
  case (JArr elems)
  show ?thesis
  proof (cases elems)
    case Nil
    with JArr show ?thesis by (simp add: downloadAssetsForTask_def)
  next
    case (Cons e es)
    let ?d = "path_join P (DOWNLOAD_DIR P) taskId"
    from assms(1) JArr have tc: "titles_convert P 0 elems"
      by (simp add: task_titles_convert_def)
    from assms(3) JArr have nb: "\<forall>uf \<in> set (tracks_plan P ?d 0 elems). \<not> body_breaks net (fst uf)"
      by (simp add: task_plan_def)
    have run: "\<And>g. \<exists>saved h'. save_tracks P net ?d 0 elems (Returns [], g) = (Returns saved, h')"
      using fetch_all_returns[OF nb] by (simp add: save_tracks_plan[OF tc])
    have "downloadAssetsForTask P net taskId arr h =
            save_tracks P net ?d 0 elems
              (Returns [], if existsSync h ?d then h else h\<lparr>dirs := insert ?d (dirs h)\<rparr>)"
      using JArr Cons assms(2)
      by (auto simp add: downloadAssetsForTask_def Let_def simp del: save_tracks.simps)
    with run show ?thesis by simp
  qed
qed (simp_all add: downloadAssetsForTask_def)

text \<open>
  C4: a destination file that exists and is not empty is returned by
  \<^verbatim>\<open>downloadFileToPath\<close> as it is, with no request; and when a first run of
  \<^verbatim>\<open>downloadAssetsForTask\<close> has saved every asset of the task and each saved file is
  not empty, a second run (whatever the network does then) sends no request, leaves the
  disk as it is and returns the list the first run returned.
\<close>

theorem materialization_idempotent:
  "(nonempty_file g outPath \<longrightarrow>
      downloadFileToPath net0 fileUrl outPath g = (Returns outPath, g)) \<and>
   (downloadAssetsForTask P net taskId arr h = (Returns saved1, h1) \<and>
    saved1 = map snd (task_plan P taskId arr) \<and>
    list_all (\<lambda>f. nonempty_file h1 (fpath f)) saved1
      \<longrightarrow> downloadAssetsForTask P net' taskId arr h1 = (Returns saved1, h1))"
proof (intro conjI impI)
  assume "nonempty_file g outPath"
  then show "downloadFileToPath net0 fileUrl outPath g = (Returns outPath, g)"
    by (rule download_present)
next
  assume a: "downloadAssetsForTask P net taskId arr h = (Returns saved1, h1) \<and>
    saved1 = map snd (task_plan P taskId arr) \<and>
    list_all (\<lambda>f. nonempty_file h1 (fpath f)) saved1"
  let ?d = "path_join P (DOWNLOAD_DIR P) taskId"
  let ?plan = "task_plan P taskId arr"
  from a have run1: "downloadAssetsForTask P net taskId arr h = (Returns saved1, h1)"
    and all: "saved1 = map snd ?plan"
    and present: "list_all (\<lambda>uf. nonempty_file h1 (fpath (snd uf))) ?plan"
    by (simp_all add: list_all_iff)
  from materializer_returned[OF run1]
  obtain g0 where tc: "task_titles_convert P arr"
    and g0: "arr \<noteq> JArr [] \<and> is_array arr \<longrightarrow> existsSync g0 ?d"
    and g1: "fetch_all net ?plan (Returns [], g0) = (Returns saved1, h1)"
    by blast
  from fetch_all_frame[OF g1] g0
  have dir: "arr \<noteq> JArr [] \<and> is_array arr \<longrightarrow> existsSync h1 ?d"
    by (auto simp: existsSync_def)
  then have "existsSync h1 ?d \<or> arr = JArr [] \<or> \<not> is_array arr" by blast
  from materializer_plan[OF tc this]
  have "downloadAssetsForTask P net' taskId arr h1 = fetch_all net' ?plan (Returns [], h1)" .
  with present all show "downloadAssetsForTask P net' taskId arr h1 = (Returns saved1, h1)"
    by (simp add: fetch_all_present)
qed

text \<open>
  One track, whose audio is downloaded by the first run; the second run finds the
  network down and returns the same file.
\<close>

theorem materialization_idempotent_witness:
  "nonempty_file
     (snd (downloadAssetsForTask simple_platform (net_only ''https://cdn/a.mp3'') ''t1''
        (JArr [track_a]) (disk (boot simple_platform)))) ''downloads/t1/1_Song.mp3''
   \<and> downloadFileToPath net_down (JStr ''https://cdn/a.mp3'') ''downloads/t1/1_Song.mp3''
       (snd (downloadAssetsForTask simple_platform (net_only ''https://cdn/a.mp3'') ''t1''
          (JArr [track_a]) (disk (boot simple_platform))))
     = (Returns ''downloads/t1/1_Song.mp3'',
        snd (downloadAssetsForTask simple_platform (net_only ''https://cdn/a.mp3'') ''t1''
          (JArr [track_a]) (disk (boot simple_platform))))
   \<and> fst (downloadAssetsForTask simple_platform (net_only ''https://cdn/a.mp3'') ''t1''
        (JArr [track_a]) (disk (boot simple_platform)))
       = Returns [\<lparr>ftype = Audio, fpath = ''downloads/t1/1_Song.mp3'', fname = ''1_Song.mp3''\<rparr>]
   \<and> downloadAssetsForTask simple_platform net_down ''t1'' (JArr [track_a])
       (snd (downloadAssetsForTask simple_platform (net_only ''https://cdn/a.mp3'') ''t1''
          (JArr [track_a]) (disk (boot simple_platform))))
     = downloadAssetsForTask simple_platform (net_only ''https://cdn/a.mp3'') ''t1''
          (JArr [track_a]) (disk (boot simple_platform))"
proof -
  let ?P = simple_platform
  let ?net = "net_only ''https://cdn/a.mp3''"
  let ?h = "disk (boot ?P)"
  let ?r = "downloadAssetsForTask ?P ?net ''t1'' (JArr [track_a]) ?h"
  let ?f = "\<lparr>ftype = Audio, fpath = ''downloads/t1/1_Song.mp3'', fname = ''1_Song.mp3''\<rparr>"
  note T = materialization_idempotent[where g = "snd ?r"
      and outPath = "''downloads/t1/1_Song.mp3''" and ?net0.0 = net_down
      and fileUrl = "JStr ''https://cdn/a.mp3''" and P = ?P and net = ?net
      and taskId = "''t1''" and arr = "JArr [track_a]" and h = ?h and ?saved1.0 = "[?f]"
      and ?h1.0 = "snd ?r" and net' = net_down]
  have s: "fst ?r = Returns [?f]"
    by (simp add: eval_defs)
  have p: "task_plan ?P ''t1'' (JArr [track_a]) = [(JStr ''https://cdn/a.mp3'', ?f)]"
    by (simp add: eval_defs)
  have n: "nonempty_file (snd ?r) ''downloads/t1/1_Song.mp3''"
    by (simp add: eval_defs)
  have m: "downloadFileToPath net_down (JStr ''https://cdn/a.mp3'') ''downloads/t1/1_Song.mp3''
       (snd ?r) = (Returns ''downloads/t1/1_Song.mp3'', snd ?r)"
    using T n by blast
  have c1: "?r = (Returns [?f], snd ?r)"
    using s by (metis prod.collapse)
  have c2: "[?f] = map snd (task_plan ?P ''t1'' (JArr [track_a]))"
    by (simp add: p)
  have c3: "list_all (\<lambda>f. nonempty_file (snd ?r) (fpath f)) [?f]"
    using n by simp
  have "downloadAssetsForTask ?P net_down ''t1'' (JArr [track_a]) (snd ?r) = (Returns [?f], snd ?r)"
    using T c1 c2 c3 by blast
  with c1 have "downloadAssetsForTask ?P net_down ''t1'' (JArr [track_a]) (snd ?r) = ?r"
    by simp
  with s n m show ?thesis by blast
qed

text \<open>
  What holds of failures: of a call of the materializer that returns. A request that
  is rejected drops its asset and nothing else. Every asset of the plan is either
  returned or has been requested, with a request that was rejected; every file that is
  returned is on the disk; and when the destination paths of the plan are pairwise
  distinct (as they are with Node's \<^verbatim>\<open>path\<close>: every name starts with the ordinal of
  its track, and the suffixes tell the assets of one track apart), the list returned is
  made of the assets whose file was already there or whose request was answered, in
  order, and a request has been sent for every asset whose file was not there.
\<close>

lemma rejected_requests_isolated:
  assumes "downloadAssetsForTask P net taskId arr h = (Returns saved, h')"
  shows "\<forall>uf \<in> set (task_plan P taskId arr).
           snd uf \<in> set saved \<or> (fst uf \<in> set (gets h') \<and> net (fst uf) = None)"
    and "\<forall>f \<in> set saved. files h' (fpath f) \<noteq> None"
    and "distinct (map (\<lambda>uf. fpath (snd uf)) (task_plan P taskId arr)) \<Longrightarrow>
           saved = map snd (filter (\<lambda>uf. nonempty_file h (fpath (snd uf)) \<or> net (fst uf) \<noteq> None)
                      (task_plan P taskId arr)) \<and>
           gets h' = gets h @ map fst (filter (\<lambda>uf. \<not> nonempty_file h (fpath (snd uf)))
                      (task_plan P taskId arr))"
proof -
  let ?plan = "task_plan P taskId arr"
  from materializer_returned[OF assms]
  obtain g where g: "files g = files h" "gets g = gets h"
    and run: "fetch_all net ?plan (Returns [], g) = (Returns saved, h')"
    by blast
  have ne: "nonempty_file g = nonempty_file h"
    by (rule ext) (simp add: nonempty_file_def g)
  from fetch_all_attempts[OF run]
  show "\<forall>uf \<in> set ?plan. snd uf \<in> set saved \<or> (fst uf \<in> set (gets h') \<and> net (fst uf) = None)"
    by simp
  from fetch_all_on_disk[OF run]
  show "\<forall>f \<in> set saved. files h' (fpath f) \<noteq> None"
    by simp
  assume dist: "distinct (map (\<lambda>uf. fpath (snd uf)) ?plan)"
  from fetch_all_distinct[OF dist run] ne g
  show "saved = map snd (filter (\<lambda>uf. nonempty_file h (fpath (snd uf)) \<or> net (fst uf) \<noteq> None) ?plan) \<and>
        gets h' = gets h @ map fst (filter (\<lambda>uf. \<not> nonempty_file h (fpath (snd uf))) ?plan)"
    by simp
qed

section \<open>Properties of the poll scheduler\<close>

lemma awaiting_fetchD:
  "awaiting_fetch w k \<Longrightarrow> k < length (ticks w) \<and> phase (ticks w ! k) = AwaitingRecordInfo
     \<and> of_timer (ticks w ! k) < length (timers w)"
  by (simp add: awaiting_fetch_def)

lemma tick_fetched_final:
  assumes "awaiting_fetch w k" and "observed_status kieResp \<in> FINAL_STATUSES"
  shows "tick_fetched P net k kieResp w =
     (let timer = of_timer (ticks w ! k);
          taskId = callback_task (timers w ! timer);
          st = observed_status kieResp;
          arr = extractSunoData kieResp;
          current = (case taskCache w taskId of None \<Rightarrow> empty_object | Some e \<Rightarrow> e);
          r = downloadAssetsForTask P net taskId arr (disk w)
      in w\<lparr>taskCache := (taskCache w)(taskId \<mapsto>
                 current\<lparr>lastRaw := kieResp, status := st, updatedAt := clock w, sunoData := arr\<rparr>),
           activePolls := (activePolls w)(taskId := None),
           timers := (timers w)[timer := (timers w ! timer)\<lparr>cleared := True\<rparr>],
           ticks := (ticks w)[k := (ticks w ! k)\<lparr>phase := AwaitingDownload (fst r)\<rparr>],
           disk := snd r,
           console := console w @ [LogStatus taskId st (attempts (timers w ! timer)), LogFinal taskId st]\<rparr>)"
  using assms
  by (simp add: tick_fetched_def Let_def stop_poll_def set_phase_def split: prod.splits)


text \<open>
  What a tick does with the way the materializer ends. The list of a call that returns
  is recorded, with \<^verbatim>\<open>downloaded\<close> true, also when some requests were rejected. When
  the call throws, the registry stays as the tick left it before the call; when it
  never settles, nothing more happens to the tick.
\<close>

lemma tick_records_returned_list:
  assumes "awaiting_fetch w k" and "observed_status kieResp \<in> FINAL_STATUSES"
    and "downloadAssetsForTask P net (callback_task (timers w ! of_timer (ticks w ! k)))
           (extractSunoData kieResp) (disk w) = (Returns saved, h')"
  shows "\<exists>w2 e. step P net (DownloadsSettle k) (tick_fetched P net k kieResp w) = Some w2 \<and>
           taskCache w2 (callback_task (timers w ! of_timer (ticks w ! k))) = Some e \<and>
           downloaded e = Some True \<and> localFiles e = Some saved"
  using awaiting_fetchD[OF assms(1)] assms(3)
  by (simp add: tick_fetched_final[OF assms(1,2)] Let_def tick_saved_def set_phase_def)

lemma tick_keeps_record_when_thrown:
  assumes "awaiting_fetch w k" and "observed_status kieResp \<in> FINAL_STATUSES"
    and "downloadAssetsForTask P net (callback_task (timers w ! of_timer (ticks w ! k)))
           (extractSunoData kieResp) (disk w) = (Throws err, h')"
  shows "\<exists>w2. step P net (DownloadsSettle k) (tick_fetched P net k kieResp w) = Some w2 \<and>
           taskCache w2 = taskCache (tick_fetched P net k kieResp w) \<and>
           map_option downloaded (taskCache w2 (callback_task (timers w ! of_timer (ticks w ! k))))
             = Some (case taskCache w (callback_task (timers w ! of_timer (ticks w ! k))) of
                       None \<Rightarrow> None | Some e \<Rightarrow> downloaded e)"
  using awaiting_fetchD[OF assms(1)] assms(3)
  by (simp add: tick_fetched_final[OF assms(1,2)] Let_def tick_download_failed_def set_phase_def
        empty_object_def split: option.splits)

lemma tick_waits_without_end:
  assumes "awaiting_fetch w k" and "observed_status kieResp \<in> FINAL_STATUSES"
    and "downloadAssetsForTask P net (callback_task (timers w ! of_timer (ticks w ! k)))
           (extractSunoData kieResp) (disk w) = (NeverSettles, h')"
  shows "step P net (DownloadsSettle k) (tick_fetched P net k kieResp w) = None"
  using awaiting_fetchD[OF assms(1)] assms(3)
  by (simp add: tick_fetched_final[OF assms(1,2)] Let_def)

subsection \<open>Handles and timers\<close>

text \<open>
  The invariant of \<^verbatim>\<open>activePolls\<close>: whatever happens, a handle names a timer of its
  own task that has not been cleared.
\<close>

lemma handles_live_cong:
  "activePolls w' = activePolls w \<Longrightarrow> timers w' = timers w \<Longrightarrow> handles_live w' = handles_live w"
  by (simp add: handles_live_def)

lemma handles_liveD:
  "handles_live w \<Longrightarrow> activePolls w t = Some h \<Longrightarrow>
     handle_timer h < length (timers w) \<and> callback_task (timers w ! handle_timer h) = t
     \<and> \<not> cleared (timers w ! handle_timer h)"
  by (simp add: handles_live_def)

lemma handles_liveI:
  "(\<And>t h. activePolls w t = Some h \<Longrightarrow>
     handle_timer h < length (timers w) \<and> callback_task (timers w ! handle_timer h) = t
     \<and> \<not> cleared (timers w ! handle_timer h)) \<Longrightarrow> handles_live w"
  by (simp add: handles_live_def)

lemma handles_live_start:
  assumes "handles_live w"
  shows "handles_live (startServerSidePoll taskId w)"
proof (cases "taskId = [] \<or> activePolls w taskId \<noteq> None")
  case True
  with assms show ?thesis by (auto simp: startServerSidePoll_def)
next
  case False
  then have ap: "activePolls (startServerSidePoll taskId w) =
        (activePolls w)(taskId \<mapsto> \<lparr>handle_timer = length (timers w), handle_attempts = 0\<rparr>)"
    and tm: "timers (startServerSidePoll taskId w) =
        timers w @ [\<lparr>callback_task = taskId, attempts = 0, cleared = False\<rparr>]"
    by (simp_all add: startServerSidePoll_def Let_def)
  show ?thesis
  proof (rule handles_liveI)
    fix t h
    assume a: "activePolls (startServerSidePoll taskId w) t = Some h"
    show "handle_timer h < length (timers (startServerSidePoll taskId w)) \<and>
          callback_task (timers (startServerSidePoll taskId w) ! handle_timer h) = t \<and>
          \<not> cleared (timers (startServerSidePoll taskId w) ! handle_timer h)"
    proof (cases "t = taskId")
      case True
      with a ap have "handle_timer h = length (timers w)" by auto
      with True show ?thesis by (simp add: tm)
    next
      case False
      with a ap have "activePolls w t = Some h" by simp
      from handles_liveD[OF assms this] show ?thesis
        by (simp add: tm nth_append)
    qed
  qed
qed

lemma handles_live_begin:
  assumes "handles_live w"
  shows "handles_live (tick_begin timer w)"
proof (rule handles_liveI)
  fix t h
  assume "activePolls (tick_begin timer w) t = Some h"
  then have "activePolls w t = Some h" by (simp add: tick_begin_def)
  from handles_liveD[OF assms this] show
    "handle_timer h < length (timers (tick_begin timer w)) \<and>
     callback_task (timers (tick_begin timer w) ! handle_timer h) = t \<and>
     \<not> cleared (timers (tick_begin timer w) ! handle_timer h)"
    by (cases "handle_timer h = timer") (simp_all add: tick_begin_def)
qed

lemma handles_live_stop:
  assumes "handles_live w"
  shows "handles_live (stop_poll timer (callback_task (timers w ! timer)) w)"
proof (rule handles_liveI)
  fix t h
  let ?w' = "stop_poll timer (callback_task (timers w ! timer)) w"
  assume a: "activePolls ?w' t = Some h"
  then have ne: "t \<noteq> callback_task (timers w ! timer)" and old: "activePolls w t = Some h"
    by (auto simp: stop_poll_def split: if_splits)
  from handles_liveD[OF assms old] ne have "handle_timer h \<noteq> timer" by auto
  with handles_liveD[OF assms old] show
    "handle_timer h < length (timers ?w') \<and>
     callback_task (timers ?w' ! handle_timer h) = t \<and>
     \<not> cleared (timers ?w' ! handle_timer h)"
    by (simp add: stop_poll_def)
qed

lemma tick_fetched_poll:
  "(activePolls (tick_fetched P net k kieResp w) = activePolls w \<and>
    timers (tick_fetched P net k kieResp w) = timers w) \<or>
   (activePolls (tick_fetched P net k kieResp w) =
      activePolls (stop_poll (of_timer (ticks w ! k))
         (callback_task (timers w ! of_timer (ticks w ! k))) w) \<and>
    timers (tick_fetched P net k kieResp w) =
      timers (stop_poll (of_timer (ticks w ! k))
         (callback_task (timers w ! of_timer (ticks w ! k))) w))"
  by (simp add: tick_fetched_def Let_def stop_poll_def set_phase_def split: prod.splits)

lemma tick_failed_poll:
  "(activePolls (tick_failed k w) = activePolls w \<and> timers (tick_failed k w) = timers w) \<or>
   (activePolls (tick_failed k w) =
      activePolls (stop_poll (of_timer (ticks w ! k))
         (callback_task (timers w ! of_timer (ticks w ! k))) w) \<and>
    timers (tick_failed k w) =
      timers (stop_poll (of_timer (ticks w ! k))
         (callback_task (timers w ! of_timer (ticks w ! k))) w))"
  by (simp add: tick_failed_def Let_def stop_poll_def set_phase_def)

lemma handles_live_fetched:
  assumes "handles_live w"
  shows "handles_live (tick_fetched P net k kieResp w)"
proof -
  from tick_fetched_poll[of P net k kieResp w] show ?thesis
  proof
    assume "activePolls (tick_fetched P net k kieResp w) = activePolls w \<and>
            timers (tick_fetched P net k kieResp w) = timers w"
    then show ?thesis using assms handles_live_cong by blast
  next
    assume "activePolls (tick_fetched P net k kieResp w) =
      activePolls (stop_poll (of_timer (ticks w ! k))
         (callback_task (timers w ! of_timer (ticks w ! k))) w) \<and>
      timers (tick_fetched P net k kieResp w) =
      timers (stop_poll (of_timer (ticks w ! k))
         (callback_task (timers w ! of_timer (ticks w ! k))) w)"
    then show ?thesis
      using handles_live_stop[OF assms, of "of_timer (ticks w ! k)"] handles_live_cong by blast
  qed
qed

lemma handles_live_failed:
  assumes "handles_live w"
  shows "handles_live (tick_failed k w)"
proof -
  from tick_failed_poll[of k w] show ?thesis
  proof
    assume "activePolls (tick_failed k w) = activePolls w \<and> timers (tick_failed k w) = timers w"
    then show ?thesis using assms handles_live_cong by blast
  next
    assume "activePolls (tick_failed k w) =
      activePolls (stop_poll (of_timer (ticks w ! k))
         (callback_task (timers w ! of_timer (ticks w ! k))) w) \<and>
      timers (tick_failed k w) =
      timers (stop_poll (of_timer (ticks w ! k))
         (callback_task (timers w ! of_timer (ticks w ! k))) w)"
    then show ?thesis
      using handles_live_stop[OF assms, of "of_timer (ticks w ! k)"] handles_live_cong by blast
  qed
qed

lemma handles_live_saved: "handles_live w \<Longrightarrow> handles_live (tick_saved k saved w)"
  by (simp add: handles_live_def tick_saved_def set_phase_def Let_def)

lemma handles_live_download_failed:
  "handles_live w \<Longrightarrow> handles_live (tick_download_failed k w)"
  by (simp add: handles_live_def tick_download_failed_def set_phase_def Let_def)

lemma handles_live_step:
  "handles_live w \<Longrightarrow> step P net e w = Some w' \<Longrightarrow> handles_live w'"
proof (cases e)
  case (DownloadsSettle k)
  assume "handles_live w" "step P net e w = Some w'"
  with DownloadsSettle show ?thesis
    by (auto simp: handles_live_saved handles_live_download_failed
          split: if_splits tick_phase.splits outcome.splits)
next
  case (Elapse n)
  assume "handles_live w" "step P net e w = Some w'"
  with Elapse show ?thesis by (auto simp: handles_live_def)
qed (auto simp: handles_live_start handles_live_begin handles_live_fetched handles_live_failed
       split: if_splits)

lemma handles_live_run:
  "handles_live w \<Longrightarrow> run P net es w = Some w' \<Longrightarrow> handles_live w'"
proof (induction es arbitrary: w)
  case Nil
  then show ?case by simp
next
  case (Cons e es)
  then show ?case
    by (auto split: option.splits dest: handles_live_step)
qed

lemma handles_live_boot: "handles_live (boot P)"
  by (simp add: handles_live_def boot_def)

subsection \<open>What one tick does\<close>

lemma tick_fetched_stopped:
  assumes "observed_status kieResp \<notin> FINAL_STATUSES"
    and "observed_status kieResp \<in> ERROR_STATUSES
         \<or> maxAttempts \<le> attempts (timers w ! of_timer (ticks w ! k))"
  shows "tick_fetched P net k kieResp w =
     (let timer = of_timer (ticks w ! k);
          taskId = callback_task (timers w ! timer);
          st = observed_status kieResp;
          current = (case taskCache w taskId of None \<Rightarrow> empty_object | Some e \<Rightarrow> e)
      in w\<lparr>taskCache := (taskCache w)(taskId \<mapsto>
                 current\<lparr>lastRaw := kieResp, status := st, updatedAt := clock w,
                         sunoData := extractSunoData kieResp\<rparr>),
           activePolls := (activePolls w)(taskId := None),
           timers := (timers w)[timer := (timers w ! timer)\<lparr>cleared := True\<rparr>],
           ticks := (ticks w)[k := (ticks w ! k)\<lparr>phase := Returned\<rparr>],
           console := console w @ [LogStatus taskId st (attempts (timers w ! timer)),
                                   LogStopped taskId st (attempts (timers w ! timer))]\<rparr>)"
  using assms
  by (simp add: tick_fetched_def Let_def stop_poll_def set_phase_def)

lemma tick_failed_stopped:
  assumes "maxAttempts \<le> attempts (timers w ! of_timer (ticks w ! k))"
  shows "tick_failed k w =
     (let timer = of_timer (ticks w ! k);
          taskId = callback_task (timers w ! timer)
      in w\<lparr>activePolls := (activePolls w)(taskId := None),
           timers := (timers w)[timer := (timers w ! timer)\<lparr>cleared := True\<rparr>],
           ticks := (ticks w)[k := (ticks w ! k)\<lparr>phase := Returned\<rparr>],
           console := console w @ [LogFetchError taskId]\<rparr>)"
  using assms
  by (simp add: tick_failed_def Let_def stop_poll_def set_phase_def)

lemma tick_failed_continues:
  assumes "\<not> maxAttempts \<le> attempts (timers w ! of_timer (ticks w ! k))"
  shows "tick_failed k w =
     w\<lparr>ticks := (ticks w)[k := (ticks w ! k)\<lparr>phase := Returned\<rparr>],
       console := console w @
         [LogFetchError (callback_task (timers w ! of_timer (ticks w ! k)))]\<rparr>"
  using assms
  by (simp add: tick_failed_def Let_def stop_poll_def set_phase_def)

lemma tick_fetched_continues:
  assumes "observed_status kieResp \<notin> FINAL_STATUSES"
    and "observed_status kieResp \<notin> ERROR_STATUSES"
    and "\<not> maxAttempts \<le> attempts (timers w ! of_timer (ticks w ! k))"
  shows "tick_fetched P net k kieResp w =
     (let timer = of_timer (ticks w ! k);
          taskId = callback_task (timers w ! timer);
          st = observed_status kieResp;
          current = (case taskCache w taskId of None \<Rightarrow> empty_object | Some e \<Rightarrow> e)
      in w\<lparr>taskCache := (taskCache w)(taskId \<mapsto>
                 current\<lparr>lastRaw := kieResp, status := st, updatedAt := clock w,
                         sunoData := extractSunoData kieResp\<rparr>),
           ticks := (ticks w)[k := (ticks w ! k)\<lparr>phase := Returned\<rparr>],
           console := console w @ [LogStatus taskId st (attempts (timers w ! timer))]\<rparr>)"
  using assms
  by (simp add: tick_fetched_def Let_def stop_poll_def set_phase_def)

lemma run_append:
  "run P net (xs @ ys) w = (case run P net xs w of None \<Rightarrow> None | Some w' \<Rightarrow> run P net ys w')"
  by (induction xs arbitrary: w) (simp_all split: option.splits)

lemma round_continues:
  assumes tm: "timers w = [\<lparr>callback_task = t, attempts = a, cleared = False\<rparr>]"
    and len: "length (ticks w) = k"
    and st: "observed_status r \<notin> FINAL_STATUSES" "observed_status r \<notin> ERROR_STATUSES"
    and a: "Suc a < maxAttempts"
  shows "\<exists>w'. run P net [TimerFires 0, RecordInfo k r] w = Some w' \<and>
           timers w' = [\<lparr>callback_task = t, attempts = Suc a, cleared = False\<rparr>] \<and>
           length (ticks w') = Suc k \<and> activePolls w' = activePolls w \<and> disk w' = disk w \<and>
           materializer_calls w' t = materializer_calls w t"
proof -
  let ?w1 = "tick_begin 0 w"
  have s1: "step P net (TimerFires 0) w = Some ?w1"
    by (simp add: tm)
  have tm1: "timers ?w1 = [\<lparr>callback_task = t, attempts = Suc a, cleared = False\<rparr>]"
    and tk1: "ticks ?w1 = ticks w @ [\<lparr>of_timer = 0, phase = AwaitingRecordInfo\<rparr>]"
    by (simp_all add: tick_begin_def tm)
  have o1: "activePolls ?w1 = activePolls w" "disk ?w1 = disk w" "console ?w1 = console w"
    by (simp_all add: tick_begin_def)
  have aw: "awaiting_fetch ?w1 k"
    by (simp add: awaiting_fetch_def tk1 tm1 len[symmetric])
  have na: "\<not> maxAttempts \<le> attempts (timers ?w1 ! of_timer (ticks ?w1 ! k))"
    using a by (simp add: tk1 tm1 len[symmetric])
  let ?w2 = "tick_fetched P net k r ?w1"
  have s2: "step P net (RecordInfo k r) ?w1 = Some ?w2"
    using aw by simp
  have "timers ?w2 = [\<lparr>callback_task = t, attempts = Suc a, cleared = False\<rparr>]"
    and "length (ticks ?w2) = Suc k" and "activePolls ?w2 = activePolls w"
    and "disk ?w2 = disk w" and "materializer_calls ?w2 t = materializer_calls w t"
    by (simp_all add: tick_fetched_continues[OF st na] Let_def tm1 tk1 len materializer_calls_def
        o1)
  with s1 s2 show ?thesis by simp
qed

lemma rounds_continue:
  assumes "timers w = [\<lparr>callback_task = t, attempts = a, cleared = False\<rparr>]"
    and "length (ticks w) = k"
    and "observed_status r \<notin> FINAL_STATUSES" "observed_status r \<notin> ERROR_STATUSES"
    and "a + n < maxAttempts"
  shows "\<exists>w'. run P net (rounds k n r) w = Some w' \<and>
           timers w' = [\<lparr>callback_task = t, attempts = a + n, cleared = False\<rparr>] \<and>
           length (ticks w') = k + n \<and> activePolls w' = activePolls w \<and> disk w' = disk w \<and>
           materializer_calls w' t = materializer_calls w t"
  using assms
proof (induction n arbitrary: w a k)
  case 0
  then show ?case by simp
next
  case (Suc n)
  from Suc.prems have "Suc a < maxAttempts" by simp
  from round_continues[OF Suc.prems(1-4) this, of P net]
  obtain w1 where w1: "run P net [TimerFires 0, RecordInfo k r] w = Some w1"
    "timers w1 = [\<lparr>callback_task = t, attempts = Suc a, cleared = False\<rparr>]"
    "length (ticks w1) = Suc k" "activePolls w1 = activePolls w" "disk w1 = disk w"
    "materializer_calls w1 t = materializer_calls w t"
    by blast
  from Suc.prems have "Suc a + n < maxAttempts" by simp
  from Suc.IH[OF w1(2) w1(3) Suc.prems(3,4) this]
  obtain w' where w': "run P net (rounds (Suc k) n r) w1 = Some w'"
    "timers w' = [\<lparr>callback_task = t, attempts = Suc a + n, cleared = False\<rparr>]"
    "length (ticks w') = Suc k + n" "activePolls w' = activePolls w1" "disk w' = disk w1"
    "materializer_calls w' t = materializer_calls w1 t"
    by blast
  have "rounds k (Suc n) r = [TimerFires 0, RecordInfo k r] @ rounds (Suc k) n r"
    by simp
  then have "run P net (rounds k (Suc n) r) w = run P net (rounds (Suc k) n r) w1"
    by (simp only: run_append w1(1) option.case)
  with w' w1 show ?case by simp
qed

text \<open>
  The poller of task t1 when its timer fires for the 120th time, after 119 ticks that
  saw PENDING.
\<close>

lemma last_tick_reached:
  "\<exists>w. run simple_platform net
          (StartPoll ''t1'' # rounds 0 119 (payload ''PENDING'' []) @ [TimerFires 0])
          (boot simple_platform) = Some w \<and>
       timers w = [\<lparr>callback_task = ''t1'', attempts = 120, cleared = False\<rparr>] \<and>
       length (ticks w) = 120 \<and> awaiting_fetch w 119 \<and> of_timer (ticks w ! 119) = 0 \<and>
       activePolls w ''t1'' = Some \<lparr>handle_timer = 0, handle_attempts = 0\<rparr> \<and>
       disk w = disk (boot simple_platform) \<and> materializer_calls w ''t1'' = 0"
proof -
  let ?P = simple_platform
  let ?w0 = "startServerSidePoll ''t1'' (boot ?P)"
  have t0: "timers ?w0 = [\<lparr>callback_task = ''t1'', attempts = 0, cleared = False\<rparr>]"
    and l0: "length (ticks ?w0) = 0"
    by (simp_all add: startServerSidePoll_def boot_def Let_def)
  have st: "observed_status (payload ''PENDING'' []) \<notin> FINAL_STATUSES"
    "observed_status (payload ''PENDING'' []) \<notin> ERROR_STATUSES"
    by (simp_all add: normalizer_defs)
  have "0 + 119 < maxAttempts" by (simp add: maxAttempts_def)
  from rounds_continue[OF t0 l0 st this, of ?P net]
  obtain w1 where w1: "run ?P net (rounds 0 119 (payload ''PENDING'' [])) ?w0 = Some w1"
    "timers w1 = [\<lparr>callback_task = ''t1'', attempts = 119, cleared = False\<rparr>]"
    "length (ticks w1) = 119" "activePolls w1 = activePolls ?w0" "disk w1 = disk ?w0"
    "materializer_calls w1 ''t1'' = materializer_calls ?w0 ''t1''"
    by auto
  let ?w = "tick_begin 0 w1"
  have r: "run ?P net (StartPoll ''t1'' # rounds 0 119 (payload ''PENDING'' []) @ [TimerFires 0])
            (boot ?P) = Some ?w"
    by (simp add: run_append w1)
  have "timers ?w = [\<lparr>callback_task = ''t1'', attempts = 120, cleared = False\<rparr>]"
    and "length (ticks ?w) = 120" and "awaiting_fetch ?w 119" and "of_timer (ticks ?w ! 119) = 0"
    and "activePolls ?w ''t1'' = Some \<lparr>handle_timer = 0, handle_attempts = 0\<rparr>"
    and "disk ?w = disk (boot ?P)" and "materializer_calls ?w ''t1'' = 0"
    using w1(2-6)
    by (simp_all add: tick_begin_def awaiting_fetch_def nth_append startServerSidePoll_def
        boot_def Let_def materializer_calls_def)
  with r show ?thesis by blast
qed

lemma first_tick_facts:
  "awaiting_fetch first_tick 0"
  "of_timer (ticks first_tick ! 0) = 0"
  "timers first_tick = [\<lparr>callback_task = ''t1'', attempts = 1, cleared = False\<rparr>]"
  "activePolls first_tick ''t1'' = Some \<lparr>handle_timer = 0, handle_attempts = 0\<rparr>"
  "run simple_platform net [StartPoll ''t1'', TimerFires 0] (boot simple_platform) = Some first_tick"
  by (simp_all add: poll_defs boot_def Let_def)

subsection \<open>The claims about the scheduler\<close>

text \<open>
  C1 asks that a final status starts the materializer once per task, and that
  \<^verbatim>\<open>downloaded\<close> is set once. The code does not ensure it. In the first run below two
  ticks of the same timer overlap (the timer fires again while the first tick still
  waits for upstream) and both observe SUCCESS; in the second a poller is started again
  for the task while the first download is in flight. In both the materializer is
  called twice for t1 and \<^verbatim>\<open>downloaded\<close> is set twice.
\<close>

theorem overlapping_ticks_materialize_twice:
  "map_option (\<lambda>w. (materializer_calls w ''t1'', downloaded_marks w ''t1''))
     (run simple_platform (net_only ''https://cdn/a.mp3'')
        [StartPoll ''t1'', TimerFires 0, TimerFires 0,
         RecordInfo 0 (payload ''SUCCESS'' [track_a]), RecordInfo 1 (payload ''SUCCESS'' [track_a]),
         DownloadsSettle 0, DownloadsSettle 1] (boot simple_platform)) = Some (2, 2)
   \<and> map_option (\<lambda>w. (materializer_calls w ''t1'', downloaded_marks w ''t1''))
     (run simple_platform (net_only ''https://cdn/a.mp3'')
        [StartPoll ''t1'', TimerFires 0, RecordInfo 0 (payload ''SUCCESS'' [track_a]),
         StartPoll ''t1'', TimerFires 1, RecordInfo 1 (payload ''SUCCESS'' [track_a]),
         DownloadsSettle 0, DownloadsSettle 1] (boot simple_platform)) = Some (2, 2)"
  by (simp add: poll_defs tick_fetched_def materializer_calls_def downloaded_marks_def
      normalizer_defs eval_defs)

text \<open>
  C5 asks that the failure of one asset never keeps the materializer from the other
  assets of the task, and that a task with a failed and a successful download is
  marked as downloaded, with the files that were saved. The code does not ensure it:
  only an exception inside one of the four \<^verbatim>\<open>try\<close> blocks is caught. In the first
  run the task has three tracks. The audio of the first is saved; the request for the
  second is rejected and this asset is dropped, as C5 says; the title of the third is an
  object with a property \<^verbatim>\<open>toString\<close>, so line 110 throws, outside the \<^verbatim>\<open>try\<close>
  blocks. The materializer is left, the audio of the third track is never requested,
  and the \<^verbatim>\<open>catch\<close> of lines 200-202 leaves the task with \<^verbatim>\<open>downloaded\<close> false and
  no local file, though one file is on the disk. In the second run the body of the first
  track's audio fails after the headers: the download never settles, the second track
  is never requested, the downloads of the tick cannot settle, and the task stays as
  not downloaded. In the third run the identifier of the task has 300 characters:
  \<^verbatim>\<open>mkdirSync\<close> throws at line 100, no asset is requested, and the task is left as
  not downloaded.
\<close>

theorem asset_failures_not_isolated:
  "map_option (\<lambda>w. (map_option downloaded (taskCache w ''t1''),
                    map_option localFiles (taskCache w ''t1''),
                    gets (disk w), files (disk w) ''downloads/t1/1_Song.mp3'',
                    filter (is_download_error_line ''t1'') (console w),
                    downloaded_marks w ''t1''))
     (run simple_platform (net_only ''https://cdn/a.mp3'')
        [StartPoll ''t1'', TimerFires 0,
         RecordInfo 0 (payload ''SUCCESS'' [track_a, track_b, track_t]),
         DownloadsSettle 0] (boot simple_platform))
     = Some (Some (Some False), Some (Some []),
             [JStr ''https://cdn/a.mp3'', JStr ''https://cdn/b.mp3''], Some 10,
             [LogDownloadError ''t1''], 0)
   \<and> map_option (\<lambda>w. (phase (ticks w ! 0), map_option downloaded (taskCache w ''t1''),
                    map_option localFiles (taskCache w ''t1''), gets (disk w),
                    step simple_platform (net_breaking ''https://cdn/a.mp3'') (DownloadsSettle 0) w))
     (run simple_platform (net_breaking ''https://cdn/a.mp3'')
        [StartPoll ''t1'', TimerFires 0,
         RecordInfo 0 (payload ''SUCCESS'' [track_a, track_b])] (boot simple_platform))
     = Some (AwaitingDownload NeverSettles, Some (Some False), Some (Some []),
             [JStr ''https://cdn/a.mp3''], None)
   \<and> map_option (\<lambda>w. (map_option downloaded (taskCache w (replicate 300 CHR ''x'')),
                    map_option localFiles (taskCache w (replicate 300 CHR ''x'')),
                    gets (disk w), dirs (disk w),
                    filter (is_download_error_line (replicate 300 CHR ''x'')) (console w)))
     (run simple_platform (net_only ''https://cdn/a.mp3'')
        [StartPoll (replicate 300 CHR ''x''), TimerFires 0,
         RecordInfo 0 (payload ''SUCCESS'' [track_a]), DownloadsSettle 0] (boot simple_platform))
     = Some (Some (Some False), Some (Some []), [], {''downloads''},
             [LogDownloadError (replicate 300 CHR ''x'')])"
  by (simp add: poll_defs tick_fetched_def downloaded_marks_def normalizer_defs eval_defs
        takeWhile_replicate_append)

text \<open>
  What the code does ensure about handles: starting a poller for a task that has a
  handle changes nothing; a tick that observes a final status, an error status, or the
  attempt ceiling, and a tick whose request fails at the ceiling, remove the handle of
  the task and clear the timer of the tick; and in every state the process can reach,
  the one handle a task can have names a timer of that task that is not cleared. The
  converse fails: a timer that is not cleared need not be named by a handle.
\<close>

theorem handle_operations:
  "(activePolls w t \<noteq> None \<longrightarrow> startServerSidePoll t w = w) \<and>
   (awaiting_fetch w k \<and> t = callback_task (timers w ! of_timer (ticks w ! k)) \<and>
    (observed_status kieResp \<in> FINAL_STATUSES \<or> observed_status kieResp \<in> ERROR_STATUSES
     \<or> maxAttempts \<le> attempts (timers w ! of_timer (ticks w ! k)))
      \<longrightarrow> activePolls (tick_fetched P net k kieResp w) t = None
          \<and> cleared (timers (tick_fetched P net k kieResp w) ! of_timer (ticks w ! k))) \<and>
   (awaiting_fetch w k \<and> t = callback_task (timers w ! of_timer (ticks w ! k)) \<and>
    maxAttempts \<le> attempts (timers w ! of_timer (ticks w ! k))
      \<longrightarrow> activePolls (tick_failed k w) t = None
          \<and> cleared (timers (tick_failed k w) ! of_timer (ticks w ! k))) \<and>
   (run P net es (boot P) = Some w' \<and> activePolls w' t' = Some h
      \<longrightarrow> handle_timer h < length (timers w')
          \<and> callback_task (timers w' ! handle_timer h) = t'
          \<and> \<not> cleared (timers w' ! handle_timer h))"
proof (intro conjI impI)
  assume "activePolls w t \<noteq> None"
  then show "startServerSidePoll t w = w"
    by (simp add: startServerSidePoll_def)
next
  assume a: "awaiting_fetch w k \<and> t = callback_task (timers w ! of_timer (ticks w ! k)) \<and>
    (observed_status kieResp \<in> FINAL_STATUSES \<or> observed_status kieResp \<in> ERROR_STATUSES
     \<or> maxAttempts \<le> attempts (timers w ! of_timer (ticks w ! k)))"
  then have aw: "awaiting_fetch w k" by simp
  note k = awaiting_fetchD[OF aw]
  show "activePolls (tick_fetched P net k kieResp w) t = None"
  proof (cases "observed_status kieResp \<in> FINAL_STATUSES")
    case True
    with a show ?thesis by (simp add: tick_fetched_final[OF aw True] Let_def)
  next
    case False
    with a show ?thesis by (simp add: tick_fetched_stopped[OF False] Let_def)
  qed
  show "cleared (timers (tick_fetched P net k kieResp w) ! of_timer (ticks w ! k))"
  proof (cases "observed_status kieResp \<in> FINAL_STATUSES")
    case True
    with a k show ?thesis by (simp add: tick_fetched_final[OF aw True] Let_def)
  next
    case False
    with a k show ?thesis by (simp add: tick_fetched_stopped[OF False] Let_def)
  qed
next
  assume a: "awaiting_fetch w k \<and> t = callback_task (timers w ! of_timer (ticks w ! k)) \<and>
    maxAttempts \<le> attempts (timers w ! of_timer (ticks w ! k))"
  then have aw: "awaiting_fetch w k"
    and ex: "maxAttempts \<le> attempts (timers w ! of_timer (ticks w ! k))" by simp_all
  note k = awaiting_fetchD[OF aw]
  from a show "activePolls (tick_failed k w) t = None"
    by (simp add: tick_failed_stopped[OF ex] Let_def)
  from k show "cleared (timers (tick_failed k w) ! of_timer (ticks w ! k))"
    by (simp add: tick_failed_stopped[OF ex] Let_def)
next
  assume a: "run P net es (boot P) = Some w' \<and> activePolls w' t' = Some h"
  then have "handles_live w'"
    using handles_live_run[OF handles_live_boot] by blast
  from handles_liveD[OF this] a
  show "handle_timer h < length (timers w')"
    and "callback_task (timers w' ! handle_timer h) = t'"
    and "\<not> cleared (timers w' ! handle_timer h)"
    by blast+
qed

text \<open>
  The first tick of t1 observes SUCCESS; the 120th tick's request fails; and the handle
  of t1 after the first firing.
\<close>

theorem handle_operations_example:
  "activePolls first_tick ''t1'' \<noteq> None
   \<and> startServerSidePoll ''t1'' first_tick = first_tick
   \<and> awaiting_fetch first_tick 0
   \<and> observed_status (payload ''SUCCESS'' [track_a]) \<in> FINAL_STATUSES
   \<and> activePolls (tick_fetched simple_platform net_down 0 (payload ''SUCCESS'' [track_a])
                    first_tick) ''t1'' = None
   \<and> cleared (timers (tick_fetched simple_platform net_down 0 (payload ''SUCCESS'' [track_a])
                    first_tick) ! 0)
   \<and> (\<exists>w. run simple_platform net_down
              (StartPoll ''t1'' # rounds 0 119 (payload ''PENDING'' []) @ [TimerFires 0])
              (boot simple_platform) = Some w
          \<and> awaiting_fetch w 119
          \<and> maxAttempts \<le> attempts (timers w ! of_timer (ticks w ! 119))
          \<and> activePolls (tick_failed 119 w) ''t1'' = None
          \<and> cleared (timers (tick_failed 119 w) ! of_timer (ticks w ! 119)))
   \<and> run simple_platform net_down [StartPoll ''t1'', TimerFires 0] (boot simple_platform)
       = Some first_tick
   \<and> activePolls first_tick ''t1'' = Some \<lparr>handle_timer = 0, handle_attempts = 0\<rparr>
   \<and> \<not> cleared (timers first_tick ! 0)"
proof -
  let ?P = simple_platform
  let ?resp = "payload ''SUCCESS'' [track_a]"
  note f = first_tick_facts
  note T = handle_operations[where w = first_tick and t = "''t1''" and k = 0
      and kieResp = ?resp and P = ?P and net = net_down
      and es = "[StartPoll ''t1'', TimerFires 0]" and w' = first_tick and t' = "''t1''"
      and h = "\<lparr>handle_timer = 0, handle_attempts = 0\<rparr>"]
  have fin: "observed_status ?resp \<in> FINAL_STATUSES"
    by (simp add: normalizer_defs)
  have a1: "activePolls first_tick ''t1'' \<noteq> None"
    by (simp add: f)
  from T a1 have c1: "startServerSidePoll ''t1'' first_tick = first_tick"
    by blast
  have t1: "''t1'' = callback_task (timers first_tick ! of_timer (ticks first_tick ! 0))"
    by (simp add: f)
  from T f(1) t1 fin
  have c2: "activePolls (tick_fetched ?P net_down 0 ?resp first_tick) ''t1'' = None
      \<and> cleared (timers (tick_fetched ?P net_down 0 ?resp first_tick)
                   ! of_timer (ticks first_tick ! 0))"
    by blast
  from T f(5) f(4) have c4: "\<not> cleared (timers first_tick ! 0)"
    by fastforce
  from last_tick_reached[of net_down]
  obtain w where w: "run ?P net_down
        (StartPoll ''t1'' # rounds 0 119 (payload ''PENDING'' []) @ [TimerFires 0]) (boot ?P) = Some w"
    "timers w = [\<lparr>callback_task = ''t1'', attempts = 120, cleared = False\<rparr>]"
    "awaiting_fetch w 119" "of_timer (ticks w ! 119) = 0"
    by blast
  have ex: "maxAttempts \<le> attempts (timers w ! of_timer (ticks w ! 119))"
    and tw: "''t1'' = callback_task (timers w ! of_timer (ticks w ! 119))"
    by (simp_all add: w maxAttempts_def)
  from handle_operations[where w = w and t = "''t1''" and k = 119] w(3) ex tw
  have c3: "activePolls (tick_failed 119 w) ''t1'' = None
      \<and> cleared (timers (tick_failed 119 w) ! of_timer (ticks w ! 119))"
    by blast
  from w(1) w(3) ex c3
  have c3': "\<exists>w. run ?P net_down
              (StartPoll ''t1'' # rounds 0 119 (payload ''PENDING'' []) @ [TimerFires 0])
              (boot ?P) = Some w
          \<and> awaiting_fetch w 119
          \<and> maxAttempts \<le> attempts (timers w ! of_timer (ticks w ! 119))
          \<and> activePolls (tick_failed 119 w) ''t1'' = None
          \<and> cleared (timers (tick_failed 119 w) ! of_timer (ticks w ! 119))"
    by blast
  from a1 c1 f(1) fin c2 c3' f(5) f(4) c4 show ?thesis
    by (simp add: f(2))
qed

text \<open>
  C3 asks for at most one active poller per task. The code does not ensure it: a tick
  that stops removes the handle of its task by the task's identifier (lines 190, 208
  and 217), whichever timer the handle names. In the runs below two ticks of timer 0
  overlap. The first observes an error status and stops the poller; a poller is started
  again for t1, with timer 1; then the second tick of timer 0 is answered, and it
  removes the handle, which is the one of timer 1. Timer 1 is now live with no handle,
  so a further start for t1 is no no-op: it makes timer 2, and two pollers are active
  for t1.
\<close>

theorem stale_tick_removes_newer_handle:
  "map_option (\<lambda>w. (live_pollers w ''t1'', map_option handle_timer (activePolls w ''t1'')))
     (run simple_platform net_down
        [StartPoll ''t1'', TimerFires 0, TimerFires 0,
         RecordInfo 0 (payload ''SENSITIVE_WORD_ERROR'' []), StartPoll ''t1'',
         RecordInfo 1 (payload ''SENSITIVE_WORD_ERROR'' [])] (boot simple_platform))
     = Some ([1], None)
   \<and> map_option (\<lambda>w. (live_pollers w ''t1'', map_option handle_timer (activePolls w ''t1'')))
     (run simple_platform net_down
        [StartPoll ''t1'', TimerFires 0, TimerFires 0,
         RecordInfo 0 (payload ''SENSITIVE_WORD_ERROR'' []), StartPoll ''t1'',
         RecordInfo 1 (payload ''SENSITIVE_WORD_ERROR'' []), StartPoll ''t1'']
        (boot simple_platform))
     = Some ([1, 2], Some 2)"
  by (simp add: poll_defs tick_fetched_def live_pollers_def normalizer_defs eval_defs)

text \<open>
  C7, as the specification words it, fails at the attempt ceiling: the final statuses
  are tested first (line 188), so the 120th tick, when it observes SUCCESS, starts the
  materializer. Here 119 ticks saw PENDING and the 120th sees SUCCESS: the counter is
  at 120, the materializer has been called, the directory of the task exists and the
  task ends as downloaded.
\<close>

theorem exhausted_success_counterexample:
  "map_option (\<lambda>w. (attempts (timers w ! 0), materializer_calls w ''t1'',
                    ''downloads/t1'' \<in> dirs (disk w),
                    map_option downloaded (taskCache w ''t1'')))
     (run simple_platform (net_only ''https://cdn/a.mp3'')
        (StartPoll ''t1'' # rounds 0 119 (payload ''PENDING'' []) @
         [TimerFires 0, RecordInfo 119 (payload ''SUCCESS'' [track_a]), DownloadsSettle 119])
        (boot simple_platform))
   = Some (120, 1, True, Some (Some True))"
proof -
  let ?P = simple_platform
  let ?net = "net_only ''https://cdn/a.mp3''"
  let ?resp = "payload ''SUCCESS'' [track_a]"
  let ?pre = "StartPoll ''t1'' # rounds 0 119 (payload ''PENDING'' []) @ [TimerFires 0]"
  from last_tick_reached[of ?net]
  obtain w where w: "run ?P ?net ?pre (boot ?P) = Some w"
    "timers w = [\<lparr>callback_task = ''t1'', attempts = 120, cleared = False\<rparr>]"
    "length (ticks w) = 120" "awaiting_fetch w 119" "of_timer (ticks w ! 119) = 0"
    "disk w = disk (boot ?P)" "materializer_calls w ''t1'' = 0"
    by blast
  have fin: "observed_status ?resp \<in> FINAL_STATUSES"
    by (simp add: normalizer_defs)
  have arr: "extractSunoData ?resp = JArr [track_a]"
    by (simp add: normalizer_defs)
  have dl: "downloadAssetsForTask ?P ?net ''t1'' (JArr [track_a]) (disk (boot ?P)) =
      (Returns [\<lparr>ftype = Audio, fpath = ''downloads/t1/1_Song.mp3'', fname = ''1_Song.mp3''\<rparr>],
       \<lparr>files = [''downloads/t1/1_Song.mp3'' \<mapsto> 10],
        dirs = {''downloads/t1'', ''downloads''}, gets = [JStr ''https://cdn/a.mp3'']\<rparr>)"
    by (simp add: eval_defs)
  let ?w1 = "tick_fetched ?P ?net 119 ?resp w"
  have s1: "step ?P ?net (RecordInfo 119 ?resp) w = Some ?w1"
    using w(4) by simp
  have f1: "timers ?w1 = [\<lparr>callback_task = ''t1'', attempts = 120, cleared = True\<rparr>]"
    "materializer_calls ?w1 ''t1'' = 1" "''downloads/t1'' \<in> dirs (disk ?w1)"
    "length (ticks ?w1) = 120" "of_timer (ticks ?w1 ! 119) = 0"
    "phase (ticks ?w1 ! 119) =
       AwaitingDownload
         (Returns [\<lparr>ftype = Audio, fpath = ''downloads/t1/1_Song.mp3'', fname = ''1_Song.mp3''\<rparr>])"
    using w(2,3,5,6,7)
    by (simp_all add: tick_fetched_final[OF w(4) fin] Let_def arr dl materializer_calls_def)
  let ?w2 = "tick_saved 119
      [\<lparr>ftype = Audio, fpath = ''downloads/t1/1_Song.mp3'', fname = ''1_Song.mp3''\<rparr>] ?w1"
  have s2: "step ?P ?net (DownloadsSettle 119) ?w1 = Some ?w2"
    using f1 by simp
  have f2: "attempts (timers ?w2 ! 0) = 120" "materializer_calls ?w2 ''t1'' = 1"
    "''downloads/t1'' \<in> dirs (disk ?w2)"
    "map_option downloaded (taskCache ?w2 ''t1'') = Some (Some True)"
    using f1
    by (simp_all add: tick_saved_def set_phase_def Let_def materializer_calls_def)
  have tail: "run ?P ?net [RecordInfo 119 ?resp, DownloadsSettle 119] w = Some ?w2"
    using s1 s2 by simp
  have "run ?P ?net (?pre @ [RecordInfo 119 ?resp, DownloadsSettle 119]) (boot ?P) = Some ?w2"
    by (simp only: run_append w(1) option.case tail)
  then have "run ?P ?net (StartPoll ''t1'' # rounds 0 119 (payload ''PENDING'' []) @
         [TimerFires 0, RecordInfo 119 ?resp, DownloadsSettle 119]) (boot ?P) = Some ?w2"
    by simp
  with f2 show ?thesis by simp
qed

text \<open>
  C7, amended: when a tick observes a status that is not final, and the status is an
  error status or the attempt counter has reached 120, the timer is cleared and the
  handle removed, the tick returns without calling the materializer, the disk is as
  before (no directory is made), the registry holds the observed status, and
  \<^verbatim>\<open>downloaded\<close> and \<^verbatim>\<open>localFiles\<close> are as before. When the request of a tick fails
  and the counter has reached 120, the timer is cleared and the handle removed, and
  registry and disk are as before.
\<close>

theorem error_or_exhausted_stops_without_download:
  "(awaiting_fetch w k \<and> observed_status kieResp \<notin> FINAL_STATUSES \<and>
    (observed_status kieResp \<in> ERROR_STATUSES
     \<or> maxAttempts \<le> attempts (timers w ! of_timer (ticks w ! k)))
     \<longrightarrow>
     (let timer = of_timer (ticks w ! k);
          task = callback_task (timers w ! timer);
          w' = tick_fetched P net k kieResp w
      in cleared (timers w' ! timer) \<and> activePolls w' task = None \<and>
         phase (ticks w' ! k) = Returned \<and>
         materializer_calls w' task = materializer_calls w task \<and>
         disk w' = disk w \<and>
         map_option status (taskCache w' task) = Some (observed_status kieResp) \<and>
         map_option downloaded (taskCache w' task) =
           Some (case taskCache w task of None \<Rightarrow> None | Some e \<Rightarrow> downloaded e) \<and>
         map_option localFiles (taskCache w' task) =
           Some (case taskCache w task of None \<Rightarrow> None | Some e \<Rightarrow> localFiles e))) \<and>
   (awaiting_fetch w k \<and> maxAttempts \<le> attempts (timers w ! of_timer (ticks w ! k))
     \<longrightarrow>
     (let timer = of_timer (ticks w ! k);
          task = callback_task (timers w ! timer);
          w' = tick_failed k w
      in cleared (timers w' ! timer) \<and> activePolls w' task = None \<and>
         phase (ticks w' ! k) = Returned \<and>
         materializer_calls w' task = materializer_calls w task \<and>
         disk w' = disk w \<and> taskCache w' = taskCache w))"
proof (intro conjI impI)
  assume a: "awaiting_fetch w k \<and> observed_status kieResp \<notin> FINAL_STATUSES \<and>
    (observed_status kieResp \<in> ERROR_STATUSES
     \<or> maxAttempts \<le> attempts (timers w ! of_timer (ticks w ! k)))"
  then have aw: "awaiting_fetch w k" and nf: "observed_status kieResp \<notin> FINAL_STATUSES"
    and st: "observed_status kieResp \<in> ERROR_STATUSES
     \<or> maxAttempts \<le> attempts (timers w ! of_timer (ticks w ! k))"
    by simp_all
  note k = awaiting_fetchD[OF aw]
  show "let timer = of_timer (ticks w ! k);
          task = callback_task (timers w ! timer);
          w' = tick_fetched P net k kieResp w
      in cleared (timers w' ! timer) \<and> activePolls w' task = None \<and>
         phase (ticks w' ! k) = Returned \<and>
         materializer_calls w' task = materializer_calls w task \<and>
         disk w' = disk w \<and>
         map_option status (taskCache w' task) = Some (observed_status kieResp) \<and>
         map_option downloaded (taskCache w' task) =
           Some (case taskCache w task of None \<Rightarrow> None | Some e \<Rightarrow> downloaded e) \<and>
         map_option localFiles (taskCache w' task) =
           Some (case taskCache w task of None \<Rightarrow> None | Some e \<Rightarrow> localFiles e)"
    using k
    by (simp add: tick_fetched_stopped[OF nf st] Let_def materializer_calls_def empty_object_def
        split: option.splits)
next
  assume a: "awaiting_fetch w k \<and> maxAttempts \<le> attempts (timers w ! of_timer (ticks w ! k))"
  then have aw: "awaiting_fetch w k"
    and ex: "maxAttempts \<le> attempts (timers w ! of_timer (ticks w ! k))" by simp_all
  note k = awaiting_fetchD[OF aw]
  show "let timer = of_timer (ticks w ! k);
          task = callback_task (timers w ! timer);
          w' = tick_failed k w
      in cleared (timers w' ! timer) \<and> activePolls w' task = None \<and>
         phase (ticks w' ! k) = Returned \<and>
         materializer_calls w' task = materializer_calls w task \<and>
         disk w' = disk w \<and> taskCache w' = taskCache w"
    using k
    by (simp add: tick_failed_stopped[OF ex] Let_def materializer_calls_def)
qed

text \<open>
  SENSITIVE_WORD_ERROR on the first tick; and the 120th tick, observing PENDING or
  failing.
\<close>

theorem error_or_exhausted_stops_without_download_witness:
  "awaiting_fetch first_tick 0
   \<and> observed_status (payload ''SENSITIVE_WORD_ERROR'' []) \<notin> FINAL_STATUSES
   \<and> observed_status (payload ''SENSITIVE_WORD_ERROR'' []) \<in> ERROR_STATUSES
   \<and> cleared (timers (tick_fetched simple_platform net_down 0
                  (payload ''SENSITIVE_WORD_ERROR'' []) first_tick) ! 0)
   \<and> activePolls (tick_fetched simple_platform net_down 0
                  (payload ''SENSITIVE_WORD_ERROR'' []) first_tick) ''t1'' = None
   \<and> materializer_calls (tick_fetched simple_platform net_down 0
                  (payload ''SENSITIVE_WORD_ERROR'' []) first_tick) ''t1'' = 0
   \<and> disk (tick_fetched simple_platform net_down 0
                  (payload ''SENSITIVE_WORD_ERROR'' []) first_tick) = disk (boot simple_platform)
   \<and> map_option status (taskCache (tick_fetched simple_platform net_down 0
                  (payload ''SENSITIVE_WORD_ERROR'' []) first_tick) ''t1'')
       = Some (JStr ''SENSITIVE_WORD_ERROR'')
   \<and> map_option downloaded (taskCache (tick_fetched simple_platform net_down 0
                  (payload ''SENSITIVE_WORD_ERROR'' []) first_tick) ''t1'')
       = Some (Some False)
   \<and> (\<exists>w. run simple_platform net_down
              (StartPoll ''t1'' # rounds 0 119 (payload ''PENDING'' []) @ [TimerFires 0])
              (boot simple_platform) = Some w
          \<and> awaiting_fetch w 119
          \<and> maxAttempts \<le> attempts (timers w ! of_timer (ticks w ! 119))
          \<and> observed_status (payload ''PENDING'' []) \<notin> FINAL_STATUSES
          \<and> cleared (timers (tick_fetched simple_platform net_down 119
                         (payload ''PENDING'' []) w) ! 0)
          \<and> activePolls (tick_fetched simple_platform net_down 119
                         (payload ''PENDING'' []) w) ''t1'' = None
          \<and> disk (tick_fetched simple_platform net_down 119 (payload ''PENDING'' []) w)
              = disk (boot simple_platform)
          \<and> map_option status (taskCache (tick_fetched simple_platform net_down 119
                         (payload ''PENDING'' []) w) ''t1'') = Some (JStr ''PENDING'')
          \<and> cleared (timers (tick_failed 119 w) ! 0)
          \<and> activePolls (tick_failed 119 w) ''t1'' = None
          \<and> taskCache (tick_failed 119 w) = taskCache w
          \<and> disk (tick_failed 119 w) = disk (boot simple_platform))"
proof -
  let ?P = simple_platform
  let ?err = "payload ''SENSITIVE_WORD_ERROR'' []"
  let ?pen = "payload ''PENDING'' []"
  note f = first_tick_facts
  have nf: "observed_status ?err \<notin> FINAL_STATUSES" and er: "observed_status ?err \<in> ERROR_STATUSES"
    and se: "observed_status ?err = JStr ''SENSITIVE_WORD_ERROR''"
    by (simp_all add: normalizer_defs)
  have pf: "observed_status ?pen \<notin> FINAL_STATUSES" and sp: "observed_status ?pen = JStr ''PENDING''"
    by (simp_all add: normalizer_defs)
  have b: "materializer_calls first_tick ''t1'' = 0" "disk first_tick = disk (boot ?P)"
    "taskCache first_tick ''t1'' = Some \<lparr>lastRaw = JNull, status = JNull, updatedAt = 0,
        sunoData = JUndefined, downloaded = Some False, localFiles = Some []\<rparr>"
    by (simp_all add: poll_defs boot_def Let_def materializer_calls_def)
  from error_or_exhausted_stops_without_download[where w = first_tick and k = 0
      and kieResp = ?err and P = ?P and net = net_down] f(1) nf er
  have c1: "cleared (timers (tick_fetched ?P net_down 0 ?err first_tick) ! 0)
     \<and> activePolls (tick_fetched ?P net_down 0 ?err first_tick) ''t1'' = None
     \<and> materializer_calls (tick_fetched ?P net_down 0 ?err first_tick) ''t1'' = 0
     \<and> disk (tick_fetched ?P net_down 0 ?err first_tick) = disk (boot ?P)
     \<and> map_option status (taskCache (tick_fetched ?P net_down 0 ?err first_tick) ''t1'')
         = Some (JStr ''SENSITIVE_WORD_ERROR'')
     \<and> map_option downloaded (taskCache (tick_fetched ?P net_down 0 ?err first_tick) ''t1'')
         = Some (Some False)"
    by (simp add: Let_def f(2,3) b se)
  from last_tick_reached[of net_down]
  obtain w where w: "run ?P net_down
        (StartPoll ''t1'' # rounds 0 119 ?pen @ [TimerFires 0]) (boot ?P) = Some w"
    "timers w = [\<lparr>callback_task = ''t1'', attempts = 120, cleared = False\<rparr>]"
    "awaiting_fetch w 119" "of_timer (ticks w ! 119) = 0" "disk w = disk (boot ?P)"
    by blast
  have ex: "maxAttempts \<le> attempts (timers w ! of_timer (ticks w ! 119))"
    by (simp add: w maxAttempts_def)
  from error_or_exhausted_stops_without_download[where w = w and k = 119
      and kieResp = ?pen and P = ?P and net = net_down] w(3) pf ex
  have c2: "cleared (timers (tick_fetched ?P net_down 119 ?pen w) ! 0)
     \<and> activePolls (tick_fetched ?P net_down 119 ?pen w) ''t1'' = None
     \<and> disk (tick_fetched ?P net_down 119 ?pen w) = disk (boot ?P)
     \<and> map_option status (taskCache (tick_fetched ?P net_down 119 ?pen w) ''t1'')
         = Some (JStr ''PENDING'')
     \<and> cleared (timers (tick_failed 119 w) ! 0)
     \<and> activePolls (tick_failed 119 w) ''t1'' = None
     \<and> taskCache (tick_failed 119 w) = taskCache w
     \<and> disk (tick_failed 119 w) = disk (boot ?P)"
    by (simp add: Let_def w(2,4,5) sp)
  from w(1) w(3) ex pf c2
  have "\<exists>w. run ?P net_down
              (StartPoll ''t1'' # rounds 0 119 ?pen @ [TimerFires 0]) (boot ?P) = Some w
          \<and> awaiting_fetch w 119
          \<and> maxAttempts \<le> attempts (timers w ! of_timer (ticks w ! 119))
          \<and> observed_status ?pen \<notin> FINAL_STATUSES
          \<and> cleared (timers (tick_fetched ?P net_down 119 ?pen w) ! 0)
          \<and> activePolls (tick_fetched ?P net_down 119 ?pen w) ''t1'' = None
          \<and> disk (tick_fetched ?P net_down 119 ?pen w) = disk (boot ?P)
          \<and> map_option status (taskCache (tick_fetched ?P net_down 119 ?pen w) ''t1'')
              = Some (JStr ''PENDING'')
          \<and> cleared (timers (tick_failed 119 w) ! 0)
          \<and> activePolls (tick_failed 119 w) ''t1'' = None
          \<and> taskCache (tick_failed 119 w) = taskCache w
          \<and> disk (tick_failed 119 w) = disk (boot ?P)"
    by blast
  with f(1) nf er c1 show ?thesis by blast
qed

text \<open>
  C8: a timer that is not cleared can fire, which counts one attempt and suspends a new
  tick at the request. When the request of a tick fails, the registry and the disk are
  left as they are, the error is logged, the attempt stays counted, and the poller
  goes on (timers and handles are as before, and the timer can fire again) unless the
  counter has reached 120, in which case the timer is cleared and the handle removed.
\<close>

theorem fetch_failure_keeps_polling:
  "(timer < length (timers w) \<and> \<not> cleared (timers w ! timer) \<longrightarrow>
      step P net (TimerFires timer) w = Some (tick_begin timer w) \<and>
      attempts (timers (tick_begin timer w) ! timer) = Suc (attempts (timers w ! timer)) \<and>
      awaiting_fetch (tick_begin timer w) (length (ticks w))) \<and>
   (awaiting_fetch w k \<longrightarrow>
      (let timer = of_timer (ticks w ! k);
           task = callback_task (timers w ! timer);
           w' = tick_failed k w
       in step P net (RecordInfoFails k) w = Some w' \<and>
          taskCache w' = taskCache w \<and> disk w' = disk w \<and>
          console w' = console w @ [LogFetchError task] \<and>
          attempts (timers w' ! timer) = attempts (timers w ! timer) \<and>
          (if maxAttempts \<le> attempts (timers w ! timer)
           then cleared (timers w' ! timer) \<and> activePolls w' task = None
           else timers w' = timers w \<and> activePolls w' = activePolls w \<and>
                (cleared (timers w ! timer) \<or>
                 step P net (TimerFires timer) w' = Some (tick_begin timer w')))))"
proof (intro conjI impI)
  assume a: "timer < length (timers w) \<and> \<not> cleared (timers w ! timer)"
  then show "step P net (TimerFires timer) w = Some (tick_begin timer w)" by simp
  from a show "attempts (timers (tick_begin timer w) ! timer) = Suc (attempts (timers w ! timer))"
    by (simp add: tick_begin_def)
  from a show "awaiting_fetch (tick_begin timer w) (length (ticks w))"
    by (simp add: tick_begin_def awaiting_fetch_def)
next
  assume aw: "awaiting_fetch w k"
  note k = awaiting_fetchD[OF aw]
  show "let timer = of_timer (ticks w ! k);
           task = callback_task (timers w ! timer);
           w' = tick_failed k w
       in step P net (RecordInfoFails k) w = Some w' \<and>
          taskCache w' = taskCache w \<and> disk w' = disk w \<and>
          console w' = console w @ [LogFetchError task] \<and>
          attempts (timers w' ! timer) = attempts (timers w ! timer) \<and>
          (if maxAttempts \<le> attempts (timers w ! timer)
           then cleared (timers w' ! timer) \<and> activePolls w' task = None
           else timers w' = timers w \<and> activePolls w' = activePolls w \<and>
                (cleared (timers w ! timer) \<or>
                 step P net (TimerFires timer) w' = Some (tick_begin timer w')))"
  proof (cases "maxAttempts \<le> attempts (timers w ! of_timer (ticks w ! k))")
    case True
    with k aw show ?thesis
      by (simp add: tick_failed_stopped[OF True] Let_def)
  next
    case False
    with k aw show ?thesis
      by (simp add: tick_failed_continues[OF False] Let_def)
  qed
qed

text \<open>The first tick of t1, whose request fails.\<close>

theorem fetch_failure_keeps_polling_witness:
  "0 < length (timers (startServerSidePoll ''t1'' (boot simple_platform)))
   \<and> \<not> cleared (timers (startServerSidePoll ''t1'' (boot simple_platform)) ! 0)
   \<and> step simple_platform net_down (TimerFires 0)
        (startServerSidePoll ''t1'' (boot simple_platform)) = Some first_tick
   \<and> attempts (timers first_tick ! 0) = 1
   \<and> awaiting_fetch first_tick 0
   \<and> step simple_platform net_down (RecordInfoFails 0) first_tick
       = Some (tick_failed 0 first_tick)
   \<and> taskCache (tick_failed 0 first_tick) = taskCache first_tick
   \<and> console (tick_failed 0 first_tick) = console first_tick @ [LogFetchError ''t1'']
   \<and> attempts (timers (tick_failed 0 first_tick) ! 0) = 1
   \<and> timers (tick_failed 0 first_tick) = timers first_tick
   \<and> activePolls (tick_failed 0 first_tick) = activePolls first_tick
   \<and> step simple_platform net_down (TimerFires 0) (tick_failed 0 first_tick)
       = Some (tick_begin 0 (tick_failed 0 first_tick))"
proof -
  let ?P = simple_platform
  let ?s = "startServerSidePoll ''t1'' (boot ?P)"
  note f = first_tick_facts
  have h1: "0 < length (timers ?s)" "\<not> cleared (timers ?s ! 0)" "attempts (timers ?s ! 0) = 0"
    "length (ticks ?s) = 0"
    by (simp_all add: poll_defs boot_def Let_def)
  from fetch_failure_keeps_polling[where w = ?s and timer = 0 and P = ?P and net = net_down] h1
  have c1: "step ?P net_down (TimerFires 0) ?s = Some first_tick
      \<and> attempts (timers first_tick ! 0) = 1 \<and> awaiting_fetch first_tick 0"
    by simp
  from fetch_failure_keeps_polling[where w = first_tick and k = 0 and P = ?P and net = net_down]
    f(1)
  have c2: "step ?P net_down (RecordInfoFails 0) first_tick = Some (tick_failed 0 first_tick)
     \<and> taskCache (tick_failed 0 first_tick) = taskCache first_tick
     \<and> console (tick_failed 0 first_tick) = console first_tick @ [LogFetchError ''t1'']
     \<and> attempts (timers (tick_failed 0 first_tick) ! 0) = 1
     \<and> timers (tick_failed 0 first_tick) = timers first_tick
     \<and> activePolls (tick_failed 0 first_tick) = activePolls first_tick
     \<and> step ?P net_down (TimerFires 0) (tick_failed 0 first_tick)
         = Some (tick_begin 0 (tick_failed 0 first_tick))"
    by (simp add: Let_def f(2,3) maxAttempts_def)
  from h1(1,2) c1 c2 show ?thesis by blast
qed

text \<open>
  C10: when a poller is started for a task that has neither a handle nor a record, the
  record it makes has status null, and a status query that arrives before the first
  tick completes (right after the start, or after the timer has fired) is answered with
  status null, no assets, \<^verbatim>\<open>downloaded\<close> false and no local files.
\<close>

theorem fresh_task_reports_null:
  assumes "taskId \<noteq> []" and "activePolls w taskId = None" and "taskCache w taskId = None"
  shows "task_route_cached taskId (startServerSidePoll taskId w) =
           Some \<lparr>reply_taskId = taskId, reply_status = JNull, reply_lastUpdated = clock w,
                 reply_sunoData = JArr [], reply_downloaded = False, reply_localFiles = []\<rparr>
         \<and> task_route_cached taskId
             (tick_begin (length (timers w)) (startServerSidePoll taskId w)) =
           Some \<lparr>reply_taskId = taskId, reply_status = JNull, reply_lastUpdated = clock w,
                 reply_sunoData = JArr [], reply_downloaded = False, reply_localFiles = []\<rparr>"
  using assms
  by (simp add: task_route_cached_def startServerSidePoll_def tick_begin_def Let_def js_or_def)

text \<open>Task t1 on the process just started.\<close>

theorem fresh_task_reports_null_witness:
  "''t1'' \<noteq> [] \<and> activePolls (boot simple_platform) ''t1'' = None
   \<and> taskCache (boot simple_platform) ''t1'' = None
   \<and> task_route_cached ''t1'' (startServerSidePoll ''t1'' (boot simple_platform)) =
       Some \<lparr>reply_taskId = ''t1'', reply_status = JNull, reply_lastUpdated = 0,
             reply_sunoData = JArr [], reply_downloaded = False, reply_localFiles = []\<rparr>
   \<and> task_route_cached ''t1'' first_tick =
       Some \<lparr>reply_taskId = ''t1'', reply_status = JNull, reply_lastUpdated = 0,
             reply_sunoData = JArr [], reply_downloaded = False, reply_localFiles = []\<rparr>"
proof -
  have h: "''t1'' \<noteq> []" "activePolls (boot simple_platform) ''t1'' = None"
    "taskCache (boot simple_platform) ''t1'' = None"
    by (simp_all add: boot_def)
  from fresh_task_reports_null[OF h] h show ?thesis
    by (simp add: boot_def)
qed

section \<open>Properties of asset retrieval\<close>

lemma name_matches_fun:
  "(\<lambda>f. (fname f \<noteq> [] \<and> str_includes (fname f) b) \<or> fname f = b) = name_matches b"
  by (rule ext) (simp add: name_matches_def)

lemma local_file_resolution:
  assumes "\<not> given fileUrl \<or> task_files w taskId = []
           \<or> url_pathname P (case fileUrl of None \<Rightarrow> [] | Some u \<Rightarrow> u) \<noteq> None"
  shows "local_file P w fileUrl taskId = Inr (first_some (resolution_order P w fileUrl taskId))"
proof (cases "task_files w taskId")
  case Nil
  have r: "first_some (resolution_order P w fileUrl taskId) = None"
    using Nil
    by (simp add: resolution_order_def matching_file_def kept_on_disk_def Let_def
        split: option.splits)
  have "local_file P w fileUrl taskId = Inr None"
  proof (cases "given taskId")
    case False
    then show ?thesis by (simp add: local_file_def)
  next
    case True
    show ?thesis
    proof (cases "taskCache w (case taskId of None \<Rightarrow> [] | Some t \<Rightarrow> t)")
      case None
      with True show ?thesis by (simp add: local_file_def)
    next
      case (Some entry)
      show ?thesis
      proof (cases "localFiles entry")
        case None
        with True Some show ?thesis by (simp add: local_file_def)
      next
        case (Some lfs)
        with True \<open>taskCache w (case taskId of None \<Rightarrow> [] | Some t \<Rightarrow> t) = Some entry\<close> Nil
        have "lfs = []" by (simp add: task_files_def)
        with True Some \<open>taskCache w (case taskId of None \<Rightarrow> [] | Some t \<Rightarrow> t) = Some entry\<close>
        show ?thesis by (simp add: local_file_def)
      qed
    qed
  qed
  with r show ?thesis by simp
next
  case (Cons f0 fs)
  then have tf: "given taskId"
    "taskCache w (case taskId of None \<Rightarrow> [] | Some t \<Rightarrow> t) \<noteq> None"
    by (auto simp: task_files_def split: if_splits option.splits)
  then obtain entry where e: "taskCache w (case taskId of None \<Rightarrow> [] | Some t \<Rightarrow> t) = Some entry"
    by blast
  with Cons tf have lf: "localFiles entry = Some (f0 # fs)"
    by (auto simp: task_files_def split: option.splits)
  define a where "a = find (\<lambda>f. ftype f = Audio) (f0 # fs)"
  define fallback where "fallback =
      (let audioLocal = (case a of None \<Rightarrow> f0 | Some f \<Rightarrow> f)
       in if existsSync (disk w) (fpath audioLocal) then Some audioLocal else None)"
  have fb: "fallback = first_some
      [kept_on_disk (disk w) a,
       kept_on_disk (disk w) (case a of None \<Rightarrow> Some f0 | Some f \<Rightarrow> None)]"
    by (cases a) (simp_all add: fallback_def kept_on_disk_def)
  show ?thesis
  proof (cases "given fileUrl")
    case False
    have "local_file P w fileUrl taskId = Inr fallback"
      unfolding fallback_def a_def
      using False tf(1) e lf
      by (simp add: local_file_def Let_def del: find.simps split: option.splits)
    moreover have "first_some (resolution_order P w fileUrl taskId) = fallback"
      using False Cons
      by (simp add: resolution_order_def matching_file_def fb a_def kept_on_disk_def Let_def
          del: find.simps split: option.splits)
    ultimately show ?thesis by simp
  next
    case True
    with assms Cons obtain pn where
      pn: "url_pathname P (case fileUrl of None \<Rightarrow> [] | Some u \<Rightarrow> u) = Some pn"
      by auto
    define m where "m = find (name_matches (path_basename P pn)) (f0 # fs)"
    have "local_file P w fileUrl taskId =
        (case m of None \<Rightarrow> Inr fallback
         | Some f \<Rightarrow> if existsSync (disk w) (fpath f) then Inr (Some f) else Inr fallback)"
      unfolding fallback_def a_def m_def
      using True tf(1) e lf pn
      by (simp add: local_file_def Let_def name_matches_fun del: find.simps
          split: option.splits)
    moreover have "first_some (resolution_order P w fileUrl taskId) =
        (case m of None \<Rightarrow> fallback
         | Some f \<Rightarrow> if existsSync (disk w) (fpath f) then Some f else fallback)"
      using True Cons pn
      by (cases m)
         (simp_all add: resolution_order_def matching_file_def fb a_def m_def kept_on_disk_def
            Let_def del: find.simps split: option.splits)
    ultimately show ?thesis by (simp split: option.splits)
  qed
qed

text \<open>
  C9, as the specification words it, fails for a task that has local files but no audio
  file among them: line 359 then falls back to the first local file, whatever it is.
  Here the audio of the track could not be fetched when the task was materialized, only
  its cover; a later request for the audio URL, which is reachable by then, is answered
  with the cover image, where the specification streams the remote audio.
\<close>

theorem download_audio_counterexample:
  "map_option
     (\<lambda>w. (download_route simple_platform (net_only ''https://cdn/a.mp3'') w
              (Some ''https://cdn/a.mp3'') (Some ''t1''),
            spec_download simple_platform (net_only ''https://cdn/a.mp3'') w
              (Some ''https://cdn/a.mp3'') (Some ''t1'')))
     (run simple_platform (net_only ''https://cdn/c.png'')
        [StartPoll ''t1'', TimerFires 0, RecordInfo 0 (payload ''SUCCESS'' [track_c]),
         DownloadsSettle 0] (boot simple_platform))
   = Some (SendFile ''downloads/t1/1_Song_cover.png'' ''1_Song_cover.png'',
           StreamRemote ''a.mp3'' (Some ''audio/mpeg''))"
  by (simp add: poll_defs tick_fetched_def normalizer_defs eval_defs route_defs)

text \<open>
  C9, amended: for a request whose URL, when given, parses (or whose task has no local
  file), the handler sends the first of these that is on disk: the first local file whose
  name contains the basename of the URL's path; else the first local audio file; else,
  for a task with no local audio file, its first local file; and else it goes to the
  remote URL. Without a URL that is a 400 reply; with a URL that answers, the stream is
  sent with the basename of the URL's path (\<^verbatim>\<open>file.bin\<close> when it is empty) as the
  attachment's file name.
\<close>

theorem download_resolution:
  "(\<not> given fileUrl \<or> task_files w taskId = []
      \<or> url_pathname P (case fileUrl of None \<Rightarrow> [] | Some u \<Rightarrow> u) \<noteq> None
    \<longrightarrow> download_route P net w fileUrl taskId =
          (case first_some (resolution_order P w fileUrl taskId) of
             Some f \<Rightarrow> SendFile (fpath f) (fname f)
           | None \<Rightarrow> stream_remote P net fileUrl)) \<and>
   (\<not> given fileUrl \<longrightarrow> stream_remote P net fileUrl = MissingUrl) \<and>
   (u \<noteq> [] \<and> net (JStr u) = Some r \<and> url_pathname P u = Some pn
    \<longrightarrow> stream_remote P net (Some u) =
          StreamRemote (if path_basename P pn = [] then ''file.bin'' else path_basename P pn)
            (case content_type r of None \<Rightarrow> None | Some c \<Rightarrow> if c = [] then None else Some c))"
proof (intro conjI impI)
  assume "\<not> given fileUrl \<or> task_files w taskId = []
      \<or> url_pathname P (case fileUrl of None \<Rightarrow> [] | Some u \<Rightarrow> u) \<noteq> None"
  from local_file_resolution[OF this]
  show "download_route P net w fileUrl taskId =
          (case first_some (resolution_order P w fileUrl taskId) of
             Some f \<Rightarrow> SendFile (fpath f) (fname f)
           | None \<Rightarrow> stream_remote P net fileUrl)"
    by (simp add: download_route_def split: option.splits)
next
  assume "\<not> given fileUrl"
  then show "stream_remote P net fileUrl = MissingUrl"
    by (simp add: stream_remote_def)
next
  assume "u \<noteq> [] \<and> net (JStr u) = Some r \<and> url_pathname P u = Some pn"
  then show "stream_remote P net (Some u) =
          StreamRemote (if path_basename P pn = [] then ''file.bin'' else path_basename P pn)
            (case content_type r of None \<Rightarrow> None | Some c \<Rightarrow> if c = [] then None else Some c)"
    by (simp add: stream_remote_def given_def Let_def)
qed

text \<open>
  Task t1 with its audio file saved: a request for the audio URL is served from disk;
  a request with no URL and no task is refused; a URL alone is streamed.
\<close>

theorem download_resolution_witness:
  "run simple_platform (net_only ''https://cdn/a.mp3'')
      [StartPoll ''t1'', TimerFires 0, RecordInfo 0 (payload ''SUCCESS'' [track_a]),
       DownloadsSettle 0] (boot simple_platform)
     = Some (tick_saved 0
         [\<lparr>ftype = Audio, fpath = ''downloads/t1/1_Song.mp3'', fname = ''1_Song.mp3''\<rparr>]
         (tick_fetched simple_platform (net_only ''https://cdn/a.mp3'') 0
            (payload ''SUCCESS'' [track_a]) first_tick))
   \<and> url_pathname simple_platform ''https://cdn/a.mp3'' \<noteq> None
   \<and> download_route simple_platform net_down
        (tick_saved 0
           [\<lparr>ftype = Audio, fpath = ''downloads/t1/1_Song.mp3'', fname = ''1_Song.mp3''\<rparr>]
           (tick_fetched simple_platform (net_only ''https://cdn/a.mp3'') 0
              (payload ''SUCCESS'' [track_a]) first_tick))
        (Some ''https://cdn/a.mp3'') (Some ''t1'')
       = SendFile ''downloads/t1/1_Song.mp3'' ''1_Song.mp3''
   \<and> \<not> given None
   \<and> stream_remote simple_platform net_down None = MissingUrl
   \<and> net_only ''https://cdn/a.mp3'' (JStr ''https://cdn/a.mp3'')
       = Some \<lparr>content_type = Some ''audio/mpeg'', body_size = 10, body_ends = True\<rparr>
   \<and> stream_remote simple_platform (net_only ''https://cdn/a.mp3'') (Some ''https://cdn/a.mp3'')
       = StreamRemote ''a.mp3'' (Some ''audio/mpeg'')"
proof -
  let ?P = simple_platform
  let ?net = "net_only ''https://cdn/a.mp3''"
  let ?u = "''https://cdn/a.mp3''"
  let ?f = "\<lparr>ftype = Audio, fpath = ''downloads/t1/1_Song.mp3'', fname = ''1_Song.mp3''\<rparr>"
  let ?w = "tick_saved 0 [?f] (tick_fetched ?P ?net 0 (payload ''SUCCESS'' [track_a]) first_tick)"
  have r: "run ?P ?net [StartPoll ''t1'', TimerFires 0, RecordInfo 0 (payload ''SUCCESS'' [track_a]),
       DownloadsSettle 0] (boot ?P) = Some ?w"
    by (simp add: poll_defs tick_fetched_def normalizer_defs eval_defs)
  have p: "url_pathname ?P ?u = Some ''/a.mp3''"
    by (simp add: simple_platform_def simple_pathname_def)
  have b: "path_basename ?P ''/a.mp3'' = ''a.mp3''"
    by (simp add: simple_platform_def simple_basename_def)
  have o: "first_some (resolution_order ?P ?w (Some ?u) (Some ''t1'')) = Some ?f"
    by (simp add: poll_defs tick_fetched_def normalizer_defs eval_defs route_defs)
  have g: "\<not> given None"
    by (simp add: given_def)
  note T = download_resolution[where P = ?P and w = ?w and fileUrl = "Some ?u"
      and taskId = "Some ''t1''" and u = ?u and pn = "''/a.mp3''"
      and r = "\<lparr>content_type = Some ''audio/mpeg'', body_size = 10, body_ends = True\<rparr>"]
  from T[where net = net_down] p o
  have c1: "download_route ?P net_down ?w (Some ?u) (Some ''t1'')
      = SendFile ''downloads/t1/1_Song.mp3'' ''1_Song.mp3''"
    by simp
  from download_resolution[where fileUrl = None and P = ?P and net = net_down] g
  have c2: "stream_remote ?P net_down None = MissingUrl"
    by blast
  from T[where net = ?net] p b
  have c3: "stream_remote ?P ?net (Some ?u) = StreamRemote ''a.mp3'' (Some ''audio/mpeg'')"
    by simp
  from r p c1 g c2 c3 show ?thesis by simp
qed

end
